theory Spec2Isabelle
  imports Main "HOL-Library.AList"
begin

section \<open>MemGlance: process and network-connection graph\<close>

text \<open>
  A shallow embedding of \<^verbatim>\<open>MemGlance.py\<close>. The script reads two CSV exports with
  pandas, builds a networkx \<^verbatim>\<open>DiGraph\<close> row by row, and renders it twice. The model
  follows the script top to bottom: the two load blocks (lines 21-58), the two graph
  loops (lines 61-83), the static rendering (lines 86-99) and the pyvis export
  (lines 102-116).
\<close>

subsection \<open>Cells, frames and the outcome of \<^verbatim>\<open>pd.read_csv\<close>\<close>

text \<open>
  A cell of a DataFrame as \<^verbatim>\<open>read_csv\<close> delivers it: a missing value, a finite number,
  an infinite number (\<^verbatim>\<open>inf\<close>, or \<^verbatim>\<open>-inf\<close> when the flag is set) or a text. Finite numbers
  are integers here; fractional values are outside the model. Characters are code points
  below 256, where the only decimal digits are \<^verbatim>\<open>0\<close> to \<^verbatim>\<open>9\<close>.
\<close>

datatype cell = NaN | Num int | Inf bool | Str string

text \<open>
  A row maps column names to cells; only names listed in \<open>columns\<close> are ever read
  (any other access is a \<^verbatim>\<open>KeyError\<close>, see \<open>column\<close>).
\<close>

record frame =
  columns :: "string list"
  rows :: "(string \<Rightarrow> cell) list"

datatype py_exn =
    FileNotFoundError
  | ParserError
  | ValueError "string list" "string list"
  | KeyError string
  | AttributeError
  | IntCastingNaNError

text \<open>
  An operation applied to every element of a list, where it may raise: the first failure
  ends it. (A list comprehension, or an element-wise operation on a column.)
\<close>

fun map_exn :: "('a \<Rightarrow> py_exn + 'b) \<Rightarrow> 'a list \<Rightarrow> py_exn + 'b list" where
  "map_exn f [] = Inr []"
| "map_exn f (x # xs) =
     (case f x of Inl e \<Rightarrow> Inl e
      | Inr y \<Rightarrow> (case map_exn f xs of Inl e \<Rightarrow> Inl e | Inr ys \<Rightarrow> Inr (y # ys)))"

text \<open>
  What \<^verbatim>\<open>pd.read_csv\<close> finds at a path: no file (\<^verbatim>\<open>FileNotFoundError\<close>), a file it cannot
  read or parse (any other exception), or a table.
\<close>

datatype csv_file = Missing | Unparsable | Table frame

fun read_csv :: "csv_file \<Rightarrow> py_exn + frame" where
  "read_csv Missing = Inl FileNotFoundError"
| "read_csv Unparsable = Inl ParserError"
| "read_csv (Table f) = Inr f"

text \<open>\<^verbatim>\<open>df[c]\<close>: the cells of column \<open>c\<close>, or \<^verbatim>\<open>KeyError\<close> when there is no such column.\<close>

definition column :: "frame \<Rightarrow> string \<Rightarrow> py_exn + cell list" where
  "column f c = (if c \<in> set (columns f) then Inr (map (\<lambda>r. r c) (rows f)) else Inl (KeyError c))"

text \<open>Builds a row from the listed cells; every other column reads as missing.\<close>

definition mk_row :: "(string \<times> cell) list \<Rightarrow> string \<Rightarrow> cell" where
  "mk_row al c = (case map_of al c of Some v \<Rightarrow> v | None \<Rightarrow> NaN)"

subsection \<open>Numeric coercion (lines 29-30 and 47-48)\<close>

text \<open>
  \<^verbatim>\<open>pd.to_numeric(col, errors="coerce").fillna(0).astype(int)\<close>. How pandas reads a
  text as a number is the library's business: it is the parameter \<open>num\<close>, which
  returns \<open>None\<close> for a text that is not numeric. \<^verbatim>\<open>to_numeric\<close> and \<^verbatim>\<open>fillna\<close> keep an
  infinite value; \<^verbatim>\<open>astype(int)\<close> raises on it (\<^verbatim>\<open>Cannot convert non-finite values\<close>), for
  the whole column.
\<close>

datatype number = Finite int | Infinite

definition to_numeric :: "(string \<Rightarrow> number option) \<Rightarrow> cell \<Rightarrow> number option" where
  "to_numeric num c =
     (case c of NaN \<Rightarrow> None | Num n \<Rightarrow> Some (Finite n) | Inf neg \<Rightarrow> Some Infinite | Str s \<Rightarrow> num s)"

definition fillna0 :: "number option \<Rightarrow> number" where
  "fillna0 v = (case v of None \<Rightarrow> Finite 0 | Some x \<Rightarrow> x)"

fun astype_int :: "number \<Rightarrow> py_exn + int" where
  "astype_int (Finite n) = Inr n"
| "astype_int Infinite = Inl IntCastingNaNError"

definition coerce_int :: "(string \<Rightarrow> number option) \<Rightarrow> cell \<Rightarrow> py_exn + int" where
  "coerce_int num c = astype_int (fillna0 (to_numeric num c))"

definition coerce_column :: "(string \<Rightarrow> number option) \<Rightarrow> cell list \<Rightarrow> py_exn + int list" where
  "coerce_column num col = map_exn (coerce_int num) col"

subsection \<open>Loading pslist (lines 21-36)\<close>

record ps_row =
  ps_pid :: int
  ps_ppid :: int
  ps_name :: cell

definition required_pslist_cols :: "string list" where
  "required_pslist_cols = [''PID'', ''PPID'', ''ImageFileName'']"

text \<open>The rows of the table after \<^verbatim>\<open>PID\<close> and \<^verbatim>\<open>PPID\<close> have been replaced by the coerced columns.\<close>

definition ps_rows :: "int list \<Rightarrow> int list \<Rightarrow> (string \<Rightarrow> cell) list \<Rightarrow> ps_row list" where
  "ps_rows pids ppids rs =
     map (\<lambda>(pid, ppid, r). \<lparr>ps_pid = pid, ps_ppid = ppid, ps_name = r ''ImageFileName''\<rparr>)
       (zip pids (zip ppids rs))"

definition load_pslist :: "(string \<Rightarrow> number option) \<Rightarrow> csv_file \<Rightarrow> py_exn + ps_row list" where
  "load_pslist num file =
     (case read_csv file of
        Inl e \<Rightarrow> Inl e
      | Inr f \<Rightarrow>
          if \<not> list_all (\<lambda>col. col \<in> set (columns f)) required_pslist_cols
          then Inl (ValueError required_pslist_cols (columns f))
          else
            (case coerce_column num (map (\<lambda>r. r ''PID'') (rows f)) of
               Inl e \<Rightarrow> Inl e
             | Inr pids \<Rightarrow>
                 (case coerce_column num (map (\<lambda>r. r ''PPID'') (rows f)) of
                    Inl e \<Rightarrow> Inl e
                  | Inr ppids \<Rightarrow> Inr (ps_rows pids ppids (rows f)))))"

subsection \<open>The address pattern (line 51)\<close>

text \<open>
  \<^verbatim>\<open>^\d+\.\d+\.\d+\.\d+$\<close> under \<^verbatim>\<open>re.match\<close>. Digits and the dot are disjoint, so
  taking each digit run greedily loses no match. Python's \<^verbatim>\<open>$\<close> matches at the end of
  the text and also just before a newline that ends the text.
\<close>

definition is_digit :: "char \<Rightarrow> bool" where
  "is_digit c = (c \<in> set ''0123456789'')"

definition digits1 :: "string \<Rightarrow> string option" where
  "digits1 s = (if takeWhile is_digit s = [] then None else Some (dropWhile is_digit s))"

fun dot :: "string \<Rightarrow> string option" where
  "dot [] = None"
| "dot (c # s) = (if c = CHR ''.'' then Some s else None)"

definition at_end :: "string \<Rightarrow> bool" where
  "at_end s = (s = [] \<or> s = [CHR 0x0A])"

definition re_match_ipv4 :: "string \<Rightarrow> bool" where
  "re_match_ipv4 s =
     (case digits1 s of None \<Rightarrow> False | Some s1 \<Rightarrow>
     (case dot s1 of None \<Rightarrow> False | Some s2 \<Rightarrow>
     (case digits1 s2 of None \<Rightarrow> False | Some s3 \<Rightarrow>
     (case dot s3 of None \<Rightarrow> False | Some s4 \<Rightarrow>
     (case digits1 s4 of None \<Rightarrow> False | Some s5 \<Rightarrow>
     (case dot s5 of None \<Rightarrow> False | Some s6 \<Rightarrow>
     (case digits1 s6 of None \<Rightarrow> False | Some s7 \<Rightarrow> at_end s7)))))))"

subsection \<open>Loading and filtering netscan (lines 39-58)\<close>

record net_row =
  net_pid :: int
  net_addr :: cell
  net_port :: int
  net_proto :: cell

definition required_netscan_cols :: "string list" where
  "required_netscan_cols = [''PID'', ''ForeignAddr'', ''ForeignPort'']"

text \<open>The rows after \<^verbatim>\<open>PID\<close> and \<^verbatim>\<open>ForeignPort\<close> have been replaced by the coerced columns.\<close>

definition net_rows :: "int list \<Rightarrow> int list \<Rightarrow> (string \<Rightarrow> cell) list \<Rightarrow> net_row list" where
  "net_rows pids ports rs =
     map (\<lambda>(pid, port, r).
            \<lparr>net_pid = pid, net_addr = r ''ForeignAddr'', net_port = port, net_proto = r ''Proto''\<rparr>)
       (zip pids (zip ports rs))"

text \<open>
  The \<^verbatim>\<open>.str\<close> accessor of a column. pandas refuses it with \<^verbatim>\<open>AttributeError\<close> on a
  column that holds no text at all but has rows (a numeric or all-missing column); a
  column without rows is accepted.
\<close>

fun is_Str :: "cell \<Rightarrow> bool" where
  "is_Str (Str s) = True"
| "is_Str c = False"

definition str_accessor_ok :: "cell list \<Rightarrow> bool" where
  "str_accessor_ok col = (col = [] \<or> list_ex is_Str col)"

text \<open>\<^verbatim>\<open>col.str.match(pattern, na=False)\<close>: a cell that is not a text gives \<open>False\<close>.\<close>

fun match_cell :: "cell \<Rightarrow> bool" where
  "match_cell (Str s) = re_match_ipv4 s"
| "match_cell c = False"

definition str_match :: "cell list \<Rightarrow> py_exn + bool list" where
  "str_match col = (if str_accessor_ok col then Inr (map match_cell col) else Inl AttributeError)"

text \<open>\<^verbatim>\<open>a & b\<close> on two boolean columns, and \<^verbatim>\<open>df[mask]\<close>.\<close>

definition mask_and :: "bool list \<Rightarrow> bool list \<Rightarrow> bool list" where
  "mask_and a b = map (\<lambda>(x, y). x \<and> y) (zip a b)"

definition boolean_index :: "'a list \<Rightarrow> bool list \<Rightarrow> 'a list" where
  "boolean_index xs m = map fst (filter snd (zip xs m))"

definition load_netscan :: "(string \<Rightarrow> number option) \<Rightarrow> csv_file \<Rightarrow> py_exn + net_row list" where
  "load_netscan num file =
     (case read_csv file of
        Inl e \<Rightarrow> Inl e
      | Inr f \<Rightarrow>
          if \<not> list_all (\<lambda>col. col \<in> set (columns f)) required_netscan_cols
          then Inl (ValueError required_netscan_cols (columns f))
          else
     (case coerce_column num (map (\<lambda>r. r ''PID'') (rows f)) of
        Inl e \<Rightarrow> Inl e
      | Inr pids \<Rightarrow>
     (case coerce_column num (map (\<lambda>r. r ''ForeignPort'') (rows f)) of
        Inl e \<Rightarrow> Inl e
      | Inr ports \<Rightarrow>
     (case column f ''Proto'' of
        Inl e \<Rightarrow> Inl e
      | Inr proto \<Rightarrow>
     (case column f ''ForeignAddr'' of
        Inl e \<Rightarrow> Inl e
      | Inr addr \<Rightarrow>
     (case str_match addr of
        Inl e \<Rightarrow> Inl e
      | Inr matched \<Rightarrow>
          Inr (boolean_index (net_rows pids ports (rows f))
                 (mask_and
                    (mask_and (map (\<lambda>c. c = Str ''TCPv4'') proto) matched)
                    (map (\<lambda>c. c \<noteq> Str ''0.0.0.0'') addr)))))))))"

subsection \<open>The directed graph (networkx \<^verbatim>\<open>DiGraph\<close>)\<close>

text \<open>
  Node keys are process ids (integers) and addresses (texts). Nodes and edges are
  dictionaries in insertion order, each entry carrying its attribute dictionary.
\<close>

datatype node = Proc int | Ip string

type_synonym attrs = "(string \<times> string) list"

record graph =
  nodes :: "(node \<times> attrs) list"
  edges :: "((node \<times> node) \<times> attrs) list"

definition empty_graph :: graph where
  "empty_graph = \<lparr>nodes = [], edges = []\<rparr>"

text \<open>\<^verbatim>\<open>d.update(new)\<close> and \<^verbatim>\<open>d.get(k, {})\<close>.\<close>

definition dict_update :: "('k \<times> 'v) list \<Rightarrow> ('k \<times> 'v) list \<Rightarrow> ('k \<times> 'v) list" where
  "dict_update d new = fold (\<lambda>(k, v). AList.update k v) new d"

definition get_or_empty :: "('k \<times> ('a \<times> 'b) list) list \<Rightarrow> 'k \<Rightarrow> ('a \<times> 'b) list" where
  "get_or_empty d k = (case map_of d k of None \<Rightarrow> [] | Some a \<Rightarrow> a)"

text \<open>\<^verbatim>\<open>G.add_node(n, **a)\<close>: creates the node if needed, then merges the attributes.\<close>

definition add_node :: "node \<Rightarrow> attrs \<Rightarrow> graph \<Rightarrow> graph" where
  "add_node n a G = G\<lparr>nodes := AList.update n (dict_update (get_or_empty (nodes G) n) a) (nodes G)\<rparr>"

text \<open>
  \<^verbatim>\<open>G.add_edge(u, v, **a)\<close>: an endpoint that is not yet a node becomes one with no
  attributes; the edge's attributes are merged into the existing ones.
\<close>

definition touch :: "node \<Rightarrow> (node \<times> attrs) list \<Rightarrow> (node \<times> attrs) list" where
  "touch n ns = (if n \<in> fst ` set ns then ns else ns @ [(n, [])])"

definition add_edge :: "node \<Rightarrow> node \<Rightarrow> attrs \<Rightarrow> graph \<Rightarrow> graph" where
  "add_edge u v a G =
     \<lparr>nodes = touch v (touch u (nodes G)),
      edges = AList.update (u, v) (dict_update (get_or_empty (edges G) (u, v)) a) (edges G)\<rparr>"

subsection \<open>Formatting\<close>

fun digits :: "nat \<Rightarrow> string" where
  "digits n = (if n < 10 then [char_of (48 + n)] else digits (n div 10) @ [char_of (48 + n mod 10)])"

declare digits.simps [simp del]

definition str_int :: "int \<Rightarrow> string" where
  "str_int i = (if i < 0 then CHR ''-'' # digits (nat (- i)) else digits (nat i))"

text \<open>\<^verbatim>\<open>f"{name}"\<close> for a cell; a missing value prints as \<^verbatim>\<open>nan\<close>.\<close>

fun format_cell :: "cell \<Rightarrow> string" where
  "format_cell NaN = ''nan''"
| "format_cell (Num n) = str_int n"
| "format_cell (Inf neg) = (if neg then ''-inf'' else ''inf'')"
| "format_cell (Str s) = s"

definition startswith :: "string \<Rightarrow> string \<Rightarrow> bool" where
  "startswith s p = (take (length p) s = p)"

subsection \<open>Process nodes and parent-child edges (lines 64-71)\<close>

definition proc_color :: "net_row list \<Rightarrow> int \<Rightarrow> string" where
  "proc_color netscan_df pid = (if pid \<in> set (map net_pid netscan_df) then ''red'' else ''lightblue'')"

definition proc_attrs :: "net_row list \<Rightarrow> ps_row \<Rightarrow> attrs" where
  "proc_attrs netscan_df r =
     [(''label'', format_cell (ps_name r) @ '' ('' @ str_int (ps_pid r) @ '')''),
      (''color'', proc_color netscan_df (ps_pid r)),
      (''shape'', ''circle'')]"

definition has_parent :: "ps_row list \<Rightarrow> ps_row \<Rightarrow> bool" where
  "has_parent pslist_df r = (ps_ppid r \<in> set (map ps_pid pslist_df) \<and> ps_ppid r \<noteq> 0)"

definition proc_step :: "ps_row list \<Rightarrow> net_row list \<Rightarrow> ps_row \<Rightarrow> graph \<Rightarrow> graph" where
  "proc_step pslist_df netscan_df r G =
     (let G1 = add_node (Proc (ps_pid r)) (proc_attrs netscan_df r) G
      in if has_parent pslist_df r
         then add_edge (Proc (ps_ppid r)) (Proc (ps_pid r)) [(''style'', ''solid'')] G1
         else G1)"

definition proc_loop :: "ps_row list \<Rightarrow> net_row list \<Rightarrow> graph \<Rightarrow> graph" where
  "proc_loop pslist_df netscan_df G = fold (proc_step pslist_df netscan_df) pslist_df G"

subsection \<open>Network connections (lines 74-83)\<close>

text \<open>Python's \<^verbatim>\<open>not ip\<close>: an empty text and the number zero are false; a missing value
  (a float \<^verbatim>\<open>nan\<close>) and an infinite number are true.\<close>

fun py_not :: "cell \<Rightarrow> bool" where
  "py_not NaN = False"
| "py_not (Num n) = (n = 0)"
| "py_not (Inf neg) = False"
| "py_not (Str s) = (s = [])"

definition skip :: "net_row \<Rightarrow> bool" where
  "skip r = (net_pid r = 0 \<or> py_not (net_addr r))"

definition ip_color :: "string \<Rightarrow> string" where
  "ip_color ip =
     (if \<not> startswith ip ''192.168.'' \<and> \<not> startswith ip ''10.'' then ''orange'' else ''lightgreen'')"

definition ip_attrs :: "string \<Rightarrow> attrs" where
  "ip_attrs ip = [(''label'', ip), (''color'', ip_color ip), (''shape'', ''box'')]"

definition conn_attrs :: "net_row \<Rightarrow> attrs" where
  "conn_attrs r = [(''style'', ''dashed''), (''label'', ''Port: '' @ str_int (net_port r))]"

text \<open>One iteration; \<^verbatim>\<open>ip.startswith\<close> on a cell that is not a text raises.\<close>

definition conn_step :: "net_row \<Rightarrow> graph \<Rightarrow> py_exn + graph" where
  "conn_step r G =
     (if skip r then Inr G
      else case net_addr r of
             Str ip \<Rightarrow> Inr (add_edge (Proc (net_pid r)) (Ip ip) (conn_attrs r) (add_node (Ip ip) (ip_attrs ip) G))
           | _ \<Rightarrow> Inl AttributeError)"

fun conn_loop :: "net_row list \<Rightarrow> graph \<Rightarrow> py_exn + graph" where
  "conn_loop [] G = Inr G"
| "conn_loop (r # rs) G = (case conn_step r G of Inl e \<Rightarrow> Inl e | Inr G' \<Rightarrow> conn_loop rs G')"

definition build_graph :: "ps_row list \<Rightarrow> net_row list \<Rightarrow> py_exn + graph" where
  "build_graph pslist_df netscan_df = conn_loop netscan_df (proc_loop pslist_df netscan_df empty_graph)"

subsection \<open>Rendering (lines 86-116)\<close>

text \<open>\<^verbatim>\<open>d[k]\<close> on an attribute dictionary.\<close>

definition getitem :: "attrs \<Rightarrow> string \<Rightarrow> py_exn + string" where
  "getitem d k = (case map_of d k of None \<Rightarrow> Inl (KeyError k) | Some v \<Rightarrow> Inr v)"

text \<open>Line 88: \<^verbatim>\<open>[G.nodes[node]["color"] for node in G.nodes]\<close>. The drawing calls around
  it are library calls and are taken to succeed.\<close>

definition node_colors :: "graph \<Rightarrow> py_exn + string list" where
  "node_colors G = map_exn (\<lambda>(n, d). getitem d ''color'') (nodes G)"

text \<open>Lines 102-106: the nodes and edges handed to pyvis.\<close>

record pyvis_node =
  pv_id :: node
  pv_label :: string
  pv_color :: string
  pv_shape :: string

record pyvis_edge =
  pv_source :: node
  pv_target :: node
  pv_dashes :: bool
  pv_title :: string

definition export_node :: "node \<times> attrs \<Rightarrow> py_exn + pyvis_node" where
  "export_node nd =
     (case getitem (snd nd) ''label'' of Inl e \<Rightarrow> Inl e | Inr l \<Rightarrow>
     (case getitem (snd nd) ''color'' of Inl e \<Rightarrow> Inl e | Inr c \<Rightarrow>
     (case getitem (snd nd) ''shape'' of Inl e \<Rightarrow> Inl e | Inr s \<Rightarrow>
        Inr \<lparr>pv_id = fst nd, pv_label = l, pv_color = c, pv_shape = s\<rparr>)))"

definition export_edge :: "(node \<times> node) \<times> attrs \<Rightarrow> py_exn + pyvis_edge" where
  "export_edge ed =
     (case getitem (snd ed) ''style'' of Inl e \<Rightarrow> Inl e | Inr st \<Rightarrow>
        Inr \<lparr>pv_source = fst (fst ed), pv_target = snd (fst ed), pv_dashes = (st = ''dashed''),
             pv_title = (case map_of (snd ed) ''label'' of None \<Rightarrow> [] | Some l \<Rightarrow> l)\<rparr>)"

definition pyvis_export :: "graph \<Rightarrow> py_exn + (pyvis_node list \<times> pyvis_edge list)" where
  "pyvis_export G =
     (case map_exn export_node (nodes G) of Inl e \<Rightarrow> Inl e | Inr ns \<Rightarrow>
     (case map_exn export_edge (edges G) of Inl e \<Rightarrow> Inl e | Inr es \<Rightarrow> Inr (ns, es)))"

subsection \<open>The whole run\<close>

text \<open>
  The two messages of the load handlers, each followed by \<^verbatim>\<open>exit(1)\<close>: the
  \<^verbatim>\<open>FileNotFoundError\<close> handler and the catch-all \<^verbatim>\<open>except Exception\<close> handler.
\<close>

datatype message = NotFoundMsg string | LoadingMsg string py_exn

definition handler :: "string \<Rightarrow> string \<Rightarrow> py_exn \<Rightarrow> message" where
  "handler path name e = (if e = FileNotFoundError then NotFoundMsg path else LoadingMsg name e)"

definition pslist_file :: string where
  "pslist_file = ''volatility_output/pslist.csv''"

definition netscan_file :: string where
  "netscan_file = ''volatility_output/netscan.csv''"

text \<open>How the HTML file was written: by \<^verbatim>\<open>net.show\<close>, or, after \<^verbatim>\<open>net.show\<close> raised and
  the warning was printed, from \<^verbatim>\<open>net.generate_html()\<close>.\<close>

datatype html_by = Show | Generate_html

text \<open>
  The ends of a run: an error message and exit status 1; an uncaught exception; or both
  files written and the closing message printed.
\<close>

datatype outcome =
    Exit1 message
  | Traceback py_exn
  | Saved graph "pyvis_node list \<times> pyvis_edge list" html_by

definition run :: "(string \<Rightarrow> number option) \<Rightarrow> csv_file \<Rightarrow> csv_file \<Rightarrow> bool \<Rightarrow> outcome" where
  "run num pslist_csv netscan_csv show_ok =
     (case load_pslist num pslist_csv of
        Inl e \<Rightarrow> Exit1 (handler pslist_file ''pslist.csv'' e)
      | Inr pslist_df \<Rightarrow>
     (case load_netscan num netscan_csv of
        Inl e \<Rightarrow> Exit1 (handler netscan_file ''netscan.csv'' e)
      | Inr netscan_df \<Rightarrow>
     (case build_graph pslist_df netscan_df of
        Inl e \<Rightarrow> Traceback e
      | Inr G \<Rightarrow>
     (case node_colors G of
        Inl e \<Rightarrow> Traceback e
      | Inr colors \<Rightarrow>
     (case pyvis_export G of
        Inl e \<Rightarrow> Traceback e
      | Inr net \<Rightarrow> Saved G net (if show_ok then Show else Generate_html))))))"

subsection \<open>Observations and specification-side notions\<close>

definition node_set :: "graph \<Rightarrow> node set" where
  "node_set G = fst ` set (nodes G)"

definition edge_set :: "graph \<Rightarrow> (node \<times> node) set" where
  "edge_set G = fst ` set (edges G)"

definition node_attrs :: "graph \<Rightarrow> node \<Rightarrow> attrs option" where
  "node_attrs G n = map_of (nodes G) n"

definition digit_run :: "string \<Rightarrow> bool" where
  "digit_run s = (s \<noteq> [] \<and> (\<forall>c\<in>set s. is_digit c))"

definition dotted_quad :: "string \<Rightarrow> bool" where
  "dotted_quad s =
     (\<exists>a b c d. digit_run a \<and> digit_run b \<and> digit_run c \<and> digit_run d \<and>
        s = a @ ''.'' @ b @ ''.'' @ c @ ''.'' @ d)"

definition pattern_matches :: "string \<Rightarrow> bool" where
  "pattern_matches s = (dotted_quad s \<or> (\<exists>t. dotted_quad t \<and> s = t @ [CHR 0x0A]))"

definition keep :: "(string \<Rightarrow> cell) \<Rightarrow> bool" where
  "keep r = (r ''Proto'' = Str ''TCPv4'' \<and> match_cell (r ''ForeignAddr'') \<and> r ''ForeignAddr'' \<noteq> Str ''0.0.0.0'')"

definition retained :: "(string \<Rightarrow> cell) \<Rightarrow> bool" where
  "retained r =
     (r ''Proto'' = Str ''TCPv4'' \<and> (\<exists>s. r ''ForeignAddr'' = Str s \<and> pattern_matches s) \<and>
      r ''ForeignAddr'' \<noteq> Str ''0.0.0.0'')"

text \<open>
  The coercions row by row: what a single row becomes, or the exception its \<^verbatim>\<open>PID\<close>,
  \<^verbatim>\<open>PPID\<close> or \<^verbatim>\<open>ForeignPort\<close> cell raises in \<^verbatim>\<open>astype(int)\<close>.
\<close>

definition ps_row_of :: "(string \<Rightarrow> number option) \<Rightarrow> (string \<Rightarrow> cell) \<Rightarrow> py_exn + ps_row" where
  "ps_row_of num r =
     (case coerce_int num (r ''PID'') of Inl e \<Rightarrow> Inl e | Inr pid \<Rightarrow>
     (case coerce_int num (r ''PPID'') of Inl e \<Rightarrow> Inl e | Inr ppid \<Rightarrow>
        Inr \<lparr>ps_pid = pid, ps_ppid = ppid, ps_name = r ''ImageFileName''\<rparr>))"

definition net_row_of :: "(string \<Rightarrow> number option) \<Rightarrow> (string \<Rightarrow> cell) \<Rightarrow> py_exn + net_row" where
  "net_row_of num r =
     (case coerce_int num (r ''PID'') of Inl e \<Rightarrow> Inl e | Inr pid \<Rightarrow>
     (case coerce_int num (r ''ForeignPort'') of Inl e \<Rightarrow> Inl e | Inr port \<Rightarrow>
        Inr \<lparr>net_pid = pid, net_addr = r ''ForeignAddr'', net_port = port, net_proto = r ''Proto''\<rparr>))"

text \<open>Some cell of column \<open>c\<close> is an infinite number, as such or once its text is read.\<close>

definition infinite_in :: "(string \<Rightarrow> number option) \<Rightarrow> frame \<Rightarrow> string \<Rightarrow> bool" where
  "infinite_in num f c = (\<exists>r\<in>set (rows f). to_numeric num (r c) = Some Infinite)"

definition netscan_loadable :: "(string \<Rightarrow> number option) \<Rightarrow> frame \<Rightarrow> bool" where
  "netscan_loadable num f =
     (set required_netscan_cols \<subseteq> set (columns f) \<and>
      \<not> infinite_in num f ''PID'' \<and> \<not> infinite_in num f ''ForeignPort'' \<and>
      ''Proto'' \<in> set (columns f) \<and>
      str_accessor_ok (map (\<lambda>r. r ''ForeignAddr'') (rows f)))"

definition ip_inv :: "graph \<Rightarrow> bool" where
  "ip_inv G = (\<forall>s d. node_attrs G (Ip s) = Some d \<longrightarrow> d = ip_attrs s)"

definition distinct_keys :: "graph \<Rightarrow> bool" where
  "distinct_keys G = (distinct (map fst (nodes G)) \<and> distinct (map fst (edges G)))"

definition edge_attrs :: "graph \<Rightarrow> node \<times> node \<Rightarrow> attrs option" where
  "edge_attrs G e = map_of (edges G) e"

definition solid_edges :: "graph \<Rightarrow> (node \<times> node) set" where
  "solid_edges G = {e. \<exists>d. edge_attrs G e = Some d \<and> map_of d ''style'' = Some ''solid''}"

fun is_Proc :: "node \<Rightarrow> bool" where
  "is_Proc (Proc p) = True"
| "is_Proc (Ip s) = False"

definition style_inv :: "graph \<Rightarrow> bool" where
  "style_inv G =
     (\<forall>u v d. edge_attrs G (u, v) = Some d \<longrightarrow>
        map_of d ''style'' = Some (if is_Proc v then ''solid'' else ''dashed''))"

subsection \<open>Example tables\<close>

text \<open>A text-to-number reading under which no text is numeric.\<close>

definition no_num :: "string \<Rightarrow> number option" where
  "no_num s = None"

text \<open>A process list in which PID 8 occurs twice, under two names.\<close>

definition ex_pslist :: frame where
  "ex_pslist =
     \<lparr>columns = [''PID'', ''PPID'', ''ImageFileName''],
      rows = [mk_row [(''PID'', Num 4), (''PPID'', Num 0), (''ImageFileName'', Str ''System'')],
              mk_row [(''PID'', Num 8), (''PPID'', Num 4), (''ImageFileName'', Str ''smss.exe'')],
              mk_row [(''PID'', Num 8), (''PPID'', Num 4), (''ImageFileName'', Str ''csrss.exe'')]]\<rparr>"

definition ex_pslist_df :: "ps_row list" where
  "ex_pslist_df =
     [\<lparr>ps_pid = 4, ps_ppid = 0, ps_name = Str ''System''\<rparr>,
      \<lparr>ps_pid = 8, ps_ppid = 4, ps_name = Str ''smss.exe''\<rparr>,
      \<lparr>ps_pid = 8, ps_ppid = 4, ps_name = Str ''csrss.exe''\<rparr>]"

text \<open>
  Connections: two that are kept for PID 8, one whose PID is not a number, one of another
  protocol and one to \<^verbatim>\<open>0.0.0.0\<close>.
\<close>

definition ex_netscan :: frame where
  "ex_netscan =
     \<lparr>columns = [''Proto'', ''ForeignAddr'', ''ForeignPort'', ''PID''],
      rows = [mk_row [(''Proto'', Str ''TCPv4''), (''ForeignAddr'', Str ''8.8.8.8''),
                      (''ForeignPort'', Num 443), (''PID'', Num 8)],
              mk_row [(''Proto'', Str ''TCPv4''), (''ForeignAddr'', Str ''192.168.1.5''),
                      (''ForeignPort'', Num 445), (''PID'', Num 8)],
              mk_row [(''Proto'', Str ''TCPv4''), (''ForeignAddr'', Str ''1.2.3.4''),
                      (''ForeignPort'', Num 80), (''PID'', Str ''-'')],
              mk_row [(''Proto'', Str ''UDPv4''), (''ForeignAddr'', Str ''*''),
                      (''ForeignPort'', Num 0), (''PID'', Num 4)],
              mk_row [(''Proto'', Str ''TCPv4''), (''ForeignAddr'', Str ''0.0.0.0''),
                      (''ForeignPort'', Num 0), (''PID'', Num 4)]]\<rparr>"

definition ex_netscan_df :: "net_row list" where
  "ex_netscan_df =
     [\<lparr>net_pid = 8, net_addr = Str ''8.8.8.8'', net_port = 443, net_proto = Str ''TCPv4''\<rparr>,
      \<lparr>net_pid = 8, net_addr = Str ''192.168.1.5'', net_port = 445, net_proto = Str ''TCPv4''\<rparr>,
      \<lparr>net_pid = 0, net_addr = Str ''1.2.3.4'', net_port = 80, net_proto = Str ''TCPv4''\<rparr>]"

text \<open>A connection table whose only row belongs to PID 9, which is not in the process list.\<close>

definition ex_netscan_orphan :: frame where
  "ex_netscan_orphan =
     \<lparr>columns = [''Proto'', ''ForeignAddr'', ''ForeignPort'', ''PID''],
      rows = [mk_row [(''Proto'', Str ''TCPv4''), (''ForeignAddr'', Str ''8.8.8.8''),
                      (''ForeignPort'', Num 443), (''PID'', Num 9)]]\<rparr>"

definition ex_netscan_orphan_df :: "net_row list" where
  "ex_netscan_orphan_df =
     [\<lparr>net_pid = 9, net_addr = Str ''8.8.8.8'', net_port = 443, net_proto = Str ''TCPv4''\<rparr>]"

text \<open>A connection table with the three validated columns and no \<^verbatim>\<open>Proto\<close> column.\<close>

definition ex_netscan_no_proto :: frame where
  "ex_netscan_no_proto = \<lparr>columns = [''PID'', ''ForeignAddr'', ''ForeignPort''], rows = []\<rparr>"



text \<open>
  A process list with a PID that is not a number (second row) and a missing PPID (third
  row).
\<close>

definition ex_pslist_gaps :: frame where
  "ex_pslist_gaps =
     \<lparr>columns = [''PID'', ''PPID'', ''ImageFileName''],
      rows = [mk_row [(''PID'', Num 4), (''PPID'', Num 0), (''ImageFileName'', Str ''System'')],
              mk_row [(''PID'', Str ''-''), (''PPID'', Num 4), (''ImageFileName'', Str ''ghost.exe'')],
              mk_row [(''PID'', Num 12), (''PPID'', NaN), (''ImageFileName'', Str ''lost.exe'')]]\<rparr>"

definition ex_pslist_gaps_df :: "ps_row list" where
  "ex_pslist_gaps_df =
     [\<lparr>ps_pid = 4, ps_ppid = 0, ps_name = Str ''System''\<rparr>,
      \<lparr>ps_pid = 0, ps_ppid = 4, ps_name = Str ''ghost.exe''\<rparr>,
      \<lparr>ps_pid = 12, ps_ppid = 0, ps_name = Str ''lost.exe''\<rparr>]"

text \<open>A process list whose second PID is infinite.\<close>

definition ex_pslist_inf :: frame where
  "ex_pslist_inf =
     \<lparr>columns = [''PID'', ''PPID'', ''ImageFileName''],
      rows = [mk_row [(''PID'', Num 4), (''PPID'', Num 0), (''ImageFileName'', Str ''System'')],
              mk_row [(''PID'', Inf False), (''PPID'', Num 4), (''ImageFileName'', Str ''smss.exe'')]]\<rparr>"

text \<open>A connection table with all four columns and no rows.\<close>

definition ex_netscan_empty :: frame where
  "ex_netscan_empty = \<lparr>columns = [''Proto'', ''ForeignAddr'', ''ForeignPort'', ''PID''], rows = []\<rparr>"


text \<open>The graph built from \<open>ex_pslist_gaps_df\<close> and no connections.\<close>

definition ex_graph_gaps :: graph where
  "ex_graph_gaps =
     \<lparr>nodes =
        [(Proc 4, [(''label'', ''System (4)''), (''color'', ''lightblue''), (''shape'', ''circle'')]),
         (Proc 0, [(''label'', ''ghost.exe (0)''), (''color'', ''lightblue''), (''shape'', ''circle'')]),
         (Proc 12, [(''label'', ''lost.exe (12)''), (''color'', ''lightblue''), (''shape'', ''circle'')])],
      edges = [((Proc 4, Proc 0), [(''style'', ''solid'')])]\<rparr>"

text \<open>The graph built from the two example tables, and what is handed to pyvis.\<close>

definition ex_graph :: graph where
  "ex_graph =
     \<lparr>nodes =
        [(Proc 4, [(''label'', ''System (4)''), (''color'', ''lightblue''), (''shape'', ''circle'')]),
         (Proc 8, [(''label'', ''csrss.exe (8)''), (''color'', ''red''), (''shape'', ''circle'')]),
         (Ip ''8.8.8.8'', [(''label'', ''8.8.8.8''), (''color'', ''orange''), (''shape'', ''box'')]),
         (Ip ''192.168.1.5'',
          [(''label'', ''192.168.1.5''), (''color'', ''lightgreen''), (''shape'', ''box'')])],
      edges =
        [((Proc 4, Proc 8), [(''style'', ''solid'')]),
         ((Proc 8, Ip ''8.8.8.8''), [(''style'', ''dashed''), (''label'', ''Port: 443'')]),
         ((Proc 8, Ip ''192.168.1.5''), [(''style'', ''dashed''), (''label'', ''Port: 445'')])]\<rparr>"

definition ex_pyvis :: "pyvis_node list \<times> pyvis_edge list" where
  "ex_pyvis =
     ([\<lparr>pv_id = Proc 4, pv_label = ''System (4)'', pv_color = ''lightblue'', pv_shape = ''circle''\<rparr>,
       \<lparr>pv_id = Proc 8, pv_label = ''csrss.exe (8)'', pv_color = ''red'', pv_shape = ''circle''\<rparr>,
       \<lparr>pv_id = Ip ''8.8.8.8'', pv_label = ''8.8.8.8'', pv_color = ''orange'', pv_shape = ''box''\<rparr>,
       \<lparr>pv_id = Ip ''192.168.1.5'', pv_label = ''192.168.1.5'', pv_color = ''lightgreen'',
          pv_shape = ''box''\<rparr>],
      [\<lparr>pv_source = Proc 4, pv_target = Proc 8, pv_dashes = False, pv_title = []\<rparr>,
       \<lparr>pv_source = Proc 8, pv_target = Ip ''8.8.8.8'', pv_dashes = True, pv_title = ''Port: 443''\<rparr>,
       \<lparr>pv_source = Proc 8, pv_target = Ip ''192.168.1.5'', pv_dashes = True,
          pv_title = ''Port: 445''\<rparr>])"

section \<open>Properties\<close>

lemma node_attrs_None: "node_attrs G n = None \<longleftrightarrow> n \<notin> node_set G"
  by (simp add: node_attrs_def node_set_def map_of_eq_None_iff)

lemma keys_touch: "fst ` set (touch n ns) = insert n (fst ` set ns)"
  by (auto simp: touch_def)

lemma map_of_touch:
  "map_of (touch n ns) m =
     (case map_of ns m of Some d \<Rightarrow> Some d | None \<Rightarrow> if m = n then Some [] else None)"
proof (cases "n \<in> fst ` set ns")
  case True
  then obtain d where "map_of ns n = Some d"
    by (metis map_of_eq_None_iff not_Some_eq)
  with True show ?thesis by (auto simp: touch_def split: option.splits)
next
  case False
  then have "map_of ns n = None" by (simp add: map_of_eq_None_iff)
  with False show ?thesis by (auto simp: touch_def map_add_def split: option.splits)
qed

lemma node_set_add_node: "node_set (add_node n a G) = insert n (node_set G)"
  by (simp add: node_set_def add_node_def dom_update)

lemma edge_set_add_node: "edge_set (add_node n a G) = edge_set G"
  by (simp add: edge_set_def add_node_def)

lemma node_set_add_edge: "node_set (add_edge u v a G) = insert u (insert v (node_set G))"
  by (auto simp: node_set_def add_edge_def keys_touch)

lemma edge_set_add_edge: "edge_set (add_edge u v a G) = insert (u, v) (edge_set G)"
  by (simp add: edge_set_def add_edge_def dom_update)

lemma node_attrs_add_node:
  "node_attrs (add_node n a G) m =
     (if m = n then Some (dict_update (get_or_empty (nodes G) n) a) else node_attrs G m)"
  by (simp add: node_attrs_def add_node_def update_conv')

lemma node_attrs_add_edge:
  "node_attrs (add_edge u v a G) m =
     (case node_attrs G m of Some d \<Rightarrow> Some d | None \<Rightarrow> if m = u \<or> m = v then Some [] else None)"
  by (auto simp: node_attrs_def add_edge_def map_of_touch split: option.splits)

lemma dict_update_proc_attrs:
  "d = [] \<or> d = proc_attrs net r' \<Longrightarrow> dict_update d (proc_attrs net r) = proc_attrs net r"
  by (auto simp: dict_update_def proc_attrs_def)

lemma dict_update_ip_attrs:
  "d = [] \<or> d = ip_attrs ip \<Longrightarrow> dict_update d (ip_attrs ip) = ip_attrs ip"
  by (auto simp: dict_update_def ip_attrs_def)

lemma not_digit_dot: "\<not> is_digit CHR ''.''"
  by (simp add: is_digit_def)

lemma not_digit_nl: "\<not> is_digit (CHR 0x0A)"
  by (simp add: is_digit_def)

lemma digits1_run:
  "digit_run a \<Longrightarrow> \<not> is_digit c \<Longrightarrow> digits1 (a @ c # r) = Some (c # r)"
  by (auto simp: digits1_def digit_run_def takeWhile_append dropWhile_append3 dropWhile_append2
      takeWhile_eq_Nil_iff neq_Nil_conv)

lemma digits1_run_end: "digit_run a \<Longrightarrow> digits1 a = Some []"
  by (auto simp: digits1_def digit_run_def neq_Nil_conv)

lemma digits1_SomeD:
  assumes "digits1 s = Some r"
  obtains a where "digit_run a" and "s = a @ r"
proof
  show "digit_run (takeWhile is_digit s)"
    using assms by (auto simp: digits1_def digit_run_def split: if_splits dest: set_takeWhileD)
  show "s = takeWhile is_digit s @ r"
    using assms by (auto simp: digits1_def split: if_splits)
qed

lemma dot_SomeD: "dot s = Some r \<Longrightarrow> s = CHR ''.'' # r"
  by (cases s) (auto split: if_splits)

lemma re_match_ipv4_iff: "re_match_ipv4 s \<longleftrightarrow> pattern_matches s"
proof
  assume "re_match_ipv4 s"
  then obtain s1 s2 s3 s4 s5 s6 s7 where
    d: "digits1 s = Some s1" "dot s1 = Some s2" "digits1 s2 = Some s3" "dot s3 = Some s4"
       "digits1 s4 = Some s5" "dot s5 = Some s6" "digits1 s6 = Some s7" and e: "at_end s7"
    by (auto simp: re_match_ipv4_def split: option.splits)
  from d(1) obtain a where a: "digit_run a" "s = a @ s1" by (rule digits1_SomeD)
  from d(3) obtain b where b: "digit_run b" "s2 = b @ s3" by (rule digits1_SomeD)
  from d(5) obtain c where c: "digit_run c" "s4 = c @ s5" by (rule digits1_SomeD)
  from d(7) obtain d' where d': "digit_run d'" "s6 = d' @ s7" by (rule digits1_SomeD)
  note r = a(1) b(1) c(1) d'(1) and s = a(2) b(2) c(2) d'(2)
  from d have t: "s1 = CHR ''.'' # s2" "s3 = CHR ''.'' # s4" "s5 = CHR ''.'' # s6"
    by (auto dest: dot_SomeD)
  have "s = (a @ ''.'' @ b @ ''.'' @ c @ ''.'' @ d') @ s7"
    using s t by simp
  moreover have "dotted_quad (a @ ''.'' @ b @ ''.'' @ c @ ''.'' @ d')"
    using r unfolding dotted_quad_def by blast
  ultimately show "pattern_matches s"
    using e unfolding pattern_matches_def at_end_def by auto
next
  assume "pattern_matches s"
  then obtain t e where q: "dotted_quad t" and s: "s = t @ e" and e: "e = [] \<or> e = [CHR 0x0A]"
    unfolding pattern_matches_def by auto
  from q obtain a b c d where
    r: "digit_run a" "digit_run b" "digit_run c" "digit_run d" and
    t: "t = a @ ''.'' @ b @ ''.'' @ c @ ''.'' @ d"
    unfolding dotted_quad_def by blast
  have 1: "digits1 s = Some (''.'' @ b @ ''.'' @ c @ ''.'' @ d @ e)"
    using digits1_run [OF r(1) not_digit_dot] s t by simp
  have 2: "digits1 (b @ ''.'' @ c @ ''.'' @ d @ e) = Some (''.'' @ c @ ''.'' @ d @ e)"
    using digits1_run [OF r(2) not_digit_dot] by simp
  have 3: "digits1 (c @ ''.'' @ d @ e) = Some (''.'' @ d @ e)"
    using digits1_run [OF r(3) not_digit_dot] by simp
  have 4: "digits1 (d @ e) = Some e"
    using e digits1_run_end [OF r(4)] digits1_run [OF r(4) not_digit_nl, of "[]"] by auto
  show "re_match_ipv4 s"
    using 1 2 3 4 e by (auto simp: re_match_ipv4_def at_end_def)
qed

lemma dotted_quad_nonempty: "dotted_quad s \<Longrightarrow> s \<noteq> []"
  by (auto simp: dotted_quad_def)

lemma re_match_ipv4_nonempty: "re_match_ipv4 s \<Longrightarrow> s \<noteq> []"
  by (auto simp: re_match_ipv4_def digits1_def split: option.splits if_splits)

lemma match_cell_iff: "match_cell c \<longleftrightarrow> (\<exists>s. c = Str s \<and> pattern_matches s)"
  by (cases c) (simp_all add: re_match_ipv4_iff)

lemma keep_retained: "keep = retained"
  by (simp add: fun_eq_iff keep_def retained_def match_cell_iff)

lemma map_exn_Inr:
  "(\<exists>ys. map_exn f xs = Inr ys) \<longleftrightarrow> (\<forall>x\<in>set xs. \<exists>y. f x = Inr y)"
  by (induction xs) (auto split: sum.splits)

lemma map_exn_Inl:
  "map_exn f xs = Inl e \<Longrightarrow> \<exists>x\<in>set xs. f x = Inl e"
  by (induction xs) (auto split: sum.splits)

lemma map_exn_mem:
  "map_exn f xs = Inr ys \<Longrightarrow> y \<in> set ys \<Longrightarrow> \<exists>x\<in>set xs. f x = Inr y"
  by (induction xs arbitrary: ys) (auto split: sum.splits)

lemma map_exn_map: "map_exn g (map h xs) = map_exn (\<lambda>x. g (h x)) xs"
  by (induction xs) (simp_all split: sum.splits)

lemma map_exn_filter:
  "map_exn g xs = Inr ys \<Longrightarrow> map_exn g (filter p xs) = Inr (boolean_index ys (map p xs))"
  by (induction xs arbitrary: ys) (auto simp: boolean_index_def split: sum.splits)

lemma map_exn_columns:
  assumes f: "\<And>x e. f x = Inl e \<Longrightarrow> e = e0" and g: "\<And>x e. g x = Inl e \<Longrightarrow> e = e0"
  shows "(case map_exn f xs of Inl e \<Rightarrow> Inl e | Inr as \<Rightarrow>
           (case map_exn g xs of Inl e \<Rightarrow> Inl e
            | Inr bs \<Rightarrow> Inr (map (\<lambda>(a, b, x). h a b x) (zip as (zip bs xs)))))
         = map_exn (\<lambda>x. case f x of Inl e \<Rightarrow> Inl e | Inr a \<Rightarrow>
                      (case g x of Inl e \<Rightarrow> Inl e | Inr b \<Rightarrow> Inr (h a b x))) xs"
proof (induction xs)
  case Nil
  show ?case by simp
next
  case (Cons x xs)
  have F: "\<And>e. map_exn f xs = Inl e \<Longrightarrow> e = e0"
    using f by (blast dest: map_exn_Inl)
  have G: "\<And>e. map_exn g xs = Inl e \<Longrightarrow> e = e0"
    using g by (blast dest: map_exn_Inl)
  show ?case
    using Cons.IH f [of x] g [of x] F G
    by (auto split: sum.splits)
qed

lemma coerce_int_Inl: "coerce_int num c = Inl e \<Longrightarrow> e = IntCastingNaNError"
  by (cases "fillna0 (to_numeric num c)") (simp_all add: coerce_int_def)

lemma coerce_int_fails:
  "(\<exists>e. coerce_int num c = Inl e) \<longleftrightarrow> to_numeric num c = Some Infinite"
  by (cases "to_numeric num c"; cases "fillna0 (to_numeric num c)")
     (auto simp: coerce_int_def fillna0_def)

lemma coerce_int_None: "to_numeric num c = None \<Longrightarrow> coerce_int num c = Inr 0"
  by (simp add: coerce_int_def fillna0_def)

lemma ps_row_of_fails:
  "(\<exists>e. ps_row_of num r = Inl e) \<longleftrightarrow>
     to_numeric num (r ''PID'') = Some Infinite \<or> to_numeric num (r ''PPID'') = Some Infinite"
  unfolding coerce_int_fails [symmetric]
  by (auto simp: ps_row_of_def split: sum.splits)

lemma net_row_of_fails:
  "(\<exists>e. net_row_of num r = Inl e) \<longleftrightarrow>
     to_numeric num (r ''PID'') = Some Infinite \<or> to_numeric num (r ''ForeignPort'') = Some Infinite"
  unfolding coerce_int_fails [symmetric]
  by (auto simp: net_row_of_def split: sum.splits)

lemma ps_row_of_Inl: "ps_row_of num r = Inl e \<Longrightarrow> e = IntCastingNaNError"
  by (auto simp: ps_row_of_def split: sum.splits dest: coerce_int_Inl)

lemma net_row_of_Inl: "net_row_of num r = Inl e \<Longrightarrow> e = IntCastingNaNError"
  by (auto simp: net_row_of_def split: sum.splits dest: coerce_int_Inl)

lemma not_Inl_iff: "(\<forall>e. v \<noteq> Inl e) \<longleftrightarrow> (\<exists>y. v = Inr y)"
  by (cases v) auto

lemma pslist_finite:
  "(\<exists>rs. map_exn (ps_row_of num) (rows f) = Inr rs) \<longleftrightarrow>
     \<not> infinite_in num f ''PID'' \<and> \<not> infinite_in num f ''PPID''"
proof -
  have "(\<forall>r\<in>set (rows f). \<exists>y. ps_row_of num r = Inr y) \<longleftrightarrow>
        (\<forall>r\<in>set (rows f). \<not> (\<exists>e. ps_row_of num r = Inl e))"
    by (simp add: not_Inl_iff)
  then show ?thesis
    unfolding map_exn_Inr ps_row_of_fails infinite_in_def by auto
qed

lemma netscan_finite:
  "(\<exists>rs. map_exn (net_row_of num) (rows f) = Inr rs) \<longleftrightarrow>
     \<not> infinite_in num f ''PID'' \<and> \<not> infinite_in num f ''ForeignPort''"
proof -
  have "(\<forall>r\<in>set (rows f). \<exists>y. net_row_of num r = Inr y) \<longleftrightarrow>
        (\<forall>r\<in>set (rows f). \<not> (\<exists>e. net_row_of num r = Inl e))"
    by (simp add: not_Inl_iff)
  then show ?thesis
    unfolding map_exn_Inr net_row_of_fails infinite_in_def by auto
qed

lemma load_pslist_Table:
  "load_pslist num (Table f) =
     (if \<not> set required_pslist_cols \<subseteq> set (columns f)
      then Inl (ValueError required_pslist_cols (columns f))
      else map_exn (ps_row_of num) (rows f))"
proof -
  have "(case coerce_column num (map (\<lambda>r. r ''PID'') (rows f)) of
           Inl e \<Rightarrow> Inl e
         | Inr pids \<Rightarrow>
             (case coerce_column num (map (\<lambda>r. r ''PPID'') (rows f)) of
                Inl e \<Rightarrow> Inl e
              | Inr ppids \<Rightarrow> Inr (ps_rows pids ppids (rows f))))
        = map_exn (ps_row_of num) (rows f)"
    unfolding coerce_column_def map_exn_map ps_rows_def ps_row_of_def
    by (rule map_exn_columns [where ?e0.0 = IntCastingNaNError]) (erule coerce_int_Inl)+
  moreover have "list_all (\<lambda>col. col \<in> set (columns f)) required_pslist_cols
               \<longleftrightarrow> set required_pslist_cols \<subseteq> set (columns f)"
    by (auto simp: list_all_iff)
  ultimately show ?thesis
    by (simp add: load_pslist_def)
qed


lemma mask_and_map: "mask_and (map p xs) (map q xs) = map (\<lambda>x. p x \<and> q x) xs"
  by (induction xs) (simp_all add: mask_and_def)

lemma keep_mask:
  "mask_and (mask_and (map (\<lambda>c. c = Str ''TCPv4'') (map (\<lambda>r. r ''Proto'') rs))
                         (map match_cell (map (\<lambda>r. r ''ForeignAddr'') rs)))
               (map (\<lambda>c. c \<noteq> Str ''0.0.0.0'') (map (\<lambda>r. r ''ForeignAddr'') rs))
        = map keep rs"
  by (simp add: mask_and_map keep_def [abs_def] comp_def)

lemma load_netscan_Table:
  "load_netscan num (Table f) =
     (if \<not> set required_netscan_cols \<subseteq> set (columns f)
      then Inl (ValueError required_netscan_cols (columns f))
      else case map_exn (net_row_of num) (rows f) of
             Inl e \<Rightarrow> Inl e
           | Inr typed \<Rightarrow>
               if ''Proto'' \<notin> set (columns f) then Inl (KeyError ''Proto'')
               else if \<not> str_accessor_ok (map (\<lambda>r. r ''ForeignAddr'') (rows f))
               then Inl AttributeError
               else Inr (boolean_index typed (map keep (rows f))))"
proof -
  have req: "list_all (\<lambda>col. col \<in> set (columns f)) required_netscan_cols
               \<longleftrightarrow> set required_netscan_cols \<subseteq> set (columns f)"
    by (auto simp: list_all_iff)
  have addr: "set required_netscan_cols \<subseteq> set (columns f) \<Longrightarrow> ''ForeignAddr'' \<in> set (columns f)"
    by (auto simp: required_netscan_cols_def)
  have typed: "(case coerce_column num (map (\<lambda>r. r ''PID'') (rows f)) of
           Inl e \<Rightarrow> Inl e
         | Inr pids \<Rightarrow>
             (case coerce_column num (map (\<lambda>r. r ''ForeignPort'') (rows f)) of
                Inl e \<Rightarrow> Inl e
              | Inr ports \<Rightarrow> Inr (net_rows pids ports (rows f))))
        = map_exn (net_row_of num) (rows f)"
    unfolding coerce_column_def map_exn_map net_rows_def net_row_of_def
    by (rule map_exn_columns [where ?e0.0 = IntCastingNaNError]) (erule coerce_int_Inl)+
  show ?thesis
  proof (cases "set required_netscan_cols \<subseteq> set (columns f)")
    case True
    show ?thesis
    proof (cases "map_exn (net_row_of num) (rows f)")
      case (Inl e)
      with typed True req show ?thesis
        by (auto simp: load_netscan_def split: sum.splits)
    next
      case (Inr rs)
      with typed obtain pids ports where
        "coerce_column num (map (\<lambda>r. r ''PID'') (rows f)) = Inr pids"
        "coerce_column num (map (\<lambda>r. r ''ForeignPort'') (rows f)) = Inr ports"
        "net_rows pids ports (rows f) = rs"
        by (auto split: sum.splits)
      with Inr True req addr show ?thesis
        by (simp add: load_netscan_def column_def str_match_def keep_mask del: map_map)
    qed
  next
    case False
    with req show ?thesis
      by (simp add: load_netscan_def)
  qed
qed

lemma load_netscan_Inr:
  "load_netscan num csv = Inr net \<longleftrightarrow>
     (\<exists>f. csv = Table f \<and> netscan_loadable num f \<and>
        map_exn (net_row_of num) (filter keep (rows f)) = Inr net)"
proof (cases csv)
  case (Table f)
  show ?thesis
  proof (cases "map_exn (net_row_of num) (rows f)")
    case (Inl e)
    then have "\<not> (\<exists>rs. map_exn (net_row_of num) (rows f) = Inr rs)" by simp
    then have "\<not> netscan_loadable num f"
      unfolding netscan_finite by (auto simp: netscan_loadable_def)
    with Inl Table show ?thesis
      by (simp add: load_netscan_Table)
  next
    case (Inr rs)
    then have "\<exists>rs. map_exn (net_row_of num) (rows f) = Inr rs" by simp
    then have fin: "\<not> infinite_in num f ''PID'' \<and> \<not> infinite_in num f ''ForeignPort''"
      unfolding netscan_finite .
    from Inr have "map_exn (net_row_of num) (filter keep (rows f)) =
        Inr (boolean_index rs (map keep (rows f)))"
      by (rule map_exn_filter)
    with Inr Table fin show ?thesis
      by (auto simp: load_netscan_Table netscan_loadable_def)
  qed
qed (simp_all add: load_netscan_def)

lemma retained_row_text:
  assumes "load_netscan num csv = Inr net" and "r \<in> set net"
  obtains s where "net_addr r = Str s" and "re_match_ipv4 s" and "s \<noteq> ''0.0.0.0''"
    and "net_proto r = Str ''TCPv4''"
proof -
  from assms(1) have "\<exists>f::frame. map_exn (net_row_of num) (filter keep (rows f)) = Inr net"
    by (auto simp: load_netscan_Inr)
  then obtain f :: frame where "map_exn (net_row_of num) (filter keep (rows f)) = Inr net" ..
  from map_exn_mem [OF this assms(2)] obtain r0 where "keep r0" "net_row_of num r0 = Inr r"
    by auto
  then show thesis
    using that
    by (cases "r0 ''ForeignAddr''") (auto simp: keep_def net_row_of_def split: sum.splits)
qed

lemma load_pslist_Inl:
  "(\<exists>e. load_pslist num csv = Inl e) \<longleftrightarrow>
     (csv = Missing \<or> csv = Unparsable \<or>
      (\<exists>f. csv = Table f \<and>
         (\<not> set required_pslist_cols \<subseteq> set (columns f) \<or>
          infinite_in num f ''PID'' \<or> infinite_in num f ''PPID'')))"
proof (cases csv)
  case (Table f)
  have "(\<exists>e. map_exn (ps_row_of num) (rows f) = Inl e) \<longleftrightarrow>
        \<not> (\<exists>rs. map_exn (ps_row_of num) (rows f) = Inr rs)"
    by (cases "map_exn (ps_row_of num) (rows f)") auto
  with Table show ?thesis
    by (auto simp: load_pslist_Table pslist_finite)
qed (simp_all add: load_pslist_def)

lemma load_netscan_Inl:
  "(\<exists>e. load_netscan num csv = Inl e) \<longleftrightarrow>
     (csv = Missing \<or> csv = Unparsable \<or>
      (\<exists>f. csv = Table f \<and>
         (\<not> set required_netscan_cols \<subseteq> set (columns f) \<or>
          infinite_in num f ''PID'' \<or> infinite_in num f ''ForeignPort'' \<or>
          ''Proto'' \<notin> set (columns f) \<or>
          \<not> str_accessor_ok (map (\<lambda>r. r ''ForeignAddr'') (rows f)))))"
proof -
  have "(\<exists>e. load_netscan num csv = Inl e) \<longleftrightarrow> \<not> (\<exists>net. load_netscan num csv = Inr net)"
    by (cases "load_netscan num csv") auto
  also have "\<dots> \<longleftrightarrow> \<not> (\<exists>f. csv = Table f \<and> netscan_loadable num f)"
  proof -
    have "(\<exists>net. map_exn (net_row_of num) (filter keep (rows f)) = Inr net)"
      if "netscan_loadable num f" for f
    proof -
      from that obtain rs where "map_exn (net_row_of num) (rows f) = Inr rs"
        using netscan_finite [of num f] by (auto simp: netscan_loadable_def)
      then show ?thesis
        by (blast dest: map_exn_filter)
    qed
    then show ?thesis
      unfolding load_netscan_Inr by blast
  qed
  also have "\<dots> \<longleftrightarrow> (csv = Missing \<or> csv = Unparsable \<or>
      (\<exists>f. csv = Table f \<and>
         (\<not> set required_netscan_cols \<subseteq> set (columns f) \<or>
          infinite_in num f ''PID'' \<or> infinite_in num f ''ForeignPort'' \<or>
          ''Proto'' \<notin> set (columns f) \<or>
          \<not> str_accessor_ok (map (\<lambda>r. r ''ForeignAddr'') (rows f)))))"
    by (cases csv) (auto simp: netscan_loadable_def)
  finally show ?thesis .
qed

lemma get_or_empty_nodes:
  "get_or_empty (nodes G) n = (case node_attrs G n of None \<Rightarrow> [] | Some d \<Rightarrow> d)"
  by (simp add: get_or_empty_def node_attrs_def)

lemma node_set_empty: "node_set empty_graph = {}"
  by (simp add: node_set_def empty_graph_def)

lemma edge_set_empty: "edge_set empty_graph = {}"
  by (simp add: edge_set_def empty_graph_def)

lemma node_attrs_empty: "node_attrs empty_graph n = None"
  by (simp add: node_attrs_def empty_graph_def)

lemma node_set_proc_step:
  "node_set (proc_step ps net r G) =
     insert (Proc (ps_pid r)) (node_set G) \<union> (if has_parent ps r then {Proc (ps_ppid r)} else {})"
  by (auto simp: proc_step_def Let_def node_set_add_node node_set_add_edge)

lemma edge_set_proc_step:
  "edge_set (proc_step ps net r G) =
     edge_set G \<union> (if has_parent ps r then {(Proc (ps_ppid r), Proc (ps_pid r))} else {})"
  by (auto simp: proc_step_def Let_def edge_set_add_node edge_set_add_edge)

lemma node_attrs_proc_step:
  "node_attrs (proc_step ps net r G) n =
     (if n = Proc (ps_pid r) then Some (dict_update (get_or_empty (nodes G) n) (proc_attrs net r))
      else case node_attrs G n of
             Some d \<Rightarrow> Some d
           | None \<Rightarrow> if has_parent ps r \<and> n = Proc (ps_ppid r) then Some [] else None)"
  by (auto simp: proc_step_def Let_def node_attrs_add_node node_attrs_add_edge split: option.splits)

lemma node_set_proc_fold:
  "node_set (fold (proc_step ps net) rs G) =
     node_set G \<union> Proc ` ps_pid ` set rs \<union> {Proc (ps_ppid r) | r. r \<in> set rs \<and> has_parent ps r}"
  by (induction rs arbitrary: G) (auto simp: node_set_proc_step)

lemma edge_set_proc_fold:
  "edge_set (fold (proc_step ps net) rs G) =
     edge_set G \<union> {(Proc (ps_ppid r), Proc (ps_pid r)) | r. r \<in> set rs \<and> has_parent ps r}"
  by (induction rs arbitrary: G) (auto simp: edge_set_proc_step)

lemma node_attrs_proc_fold:
  "node_attrs (fold (proc_step ps net) rs empty_graph) (Proc p) =
     (case find (\<lambda>r. ps_pid r = p) (rev rs) of
        Some r \<Rightarrow> Some (proc_attrs net r)
      | None \<Rightarrow> if \<exists>r\<in>set rs. has_parent ps r \<and> ps_ppid r = p then Some [] else None)"
proof (induction rs rule: rev_induct)
  case Nil
  show ?case by (simp add: node_attrs_empty)
next
  case (snoc x xs)
  let ?G = "fold (proc_step ps net) xs empty_graph"
  show ?case
  proof (cases "ps_pid x = p")
    case True
    have "get_or_empty (nodes ?G) (Proc p) = [] \<or>
          (\<exists>r'. get_or_empty (nodes ?G) (Proc p) = proc_attrs net r')"
      unfolding get_or_empty_nodes snoc.IH by (auto split: option.splits)
    then have "dict_update (get_or_empty (nodes ?G) (Proc p)) (proc_attrs net x) = proc_attrs net x"
      by (auto intro: dict_update_proc_attrs)
    with True show ?thesis
      by (simp add: node_attrs_proc_step)
  next
    case False
    then show ?thesis
      by (auto simp: node_attrs_proc_step snoc.IH split: option.splits)
  qed
qed

lemma node_attrs_proc_fold_Ip: "node_attrs (fold (proc_step ps net) rs empty_graph) (Ip s) = None"
  by (simp add: node_attrs_None node_set_proc_fold node_set_empty) auto

lemma find_append:
  "find P (xs @ ys) = (case find P xs of None \<Rightarrow> find P ys | Some x \<Rightarrow> Some x)"
  by (induction xs) simp_all

lemma find_last_row:
  "ps_pid r \<notin> ps_pid ` set ys \<Longrightarrow> find (\<lambda>r'. ps_pid r' = ps_pid r) (rev (xs @ r # ys)) = Some r"
proof -
  assume "ps_pid r \<notin> ps_pid ` set ys"
  then have "\<forall>r'\<in>set ys. ps_pid r' \<noteq> ps_pid r"
    by (metis imageI)
  then have "find (\<lambda>r'. ps_pid r' = ps_pid r) (rev ys) = None"
    by (simp add: find_None_iff)
  then show ?thesis
    by (simp add: find_append)
qed

lemma node_attrs_proc_loop:
  "node_attrs (proc_loop ps net empty_graph) (Proc p) =
     map_option (proc_attrs net) (find (\<lambda>r. ps_pid r = p) (rev ps))"
proof (cases "find (\<lambda>r. ps_pid r = p) (rev ps)")
  case None
  then have "p \<notin> ps_pid ` set ps"
    by (auto simp: find_None_iff)
  then have "\<not> (\<exists>r\<in>set ps. has_parent ps r \<and> ps_ppid r = p)"
    by (auto simp: has_parent_def)
  with None show ?thesis
    by (simp add: proc_loop_def node_attrs_proc_fold)
next
  case (Some r)
  then show ?thesis
    by (simp add: proc_loop_def node_attrs_proc_fold)
qed

lemma node_set_proc_loop: "node_set (proc_loop ps net empty_graph) = Proc ` ps_pid ` set ps"
  by (auto simp: proc_loop_def node_set_proc_fold node_set_empty has_parent_def)

lemma edge_set_proc_loop:
  "edge_set (proc_loop ps net empty_graph) =
     {(Proc (ps_ppid r), Proc (ps_pid r)) | r. r \<in> set ps \<and> has_parent ps r}"
  by (simp add: proc_loop_def edge_set_proc_fold edge_set_empty)

lemma conn_step_cases:
  assumes "conn_step r G = Inr G'"
  obtains (skipped) "skip r" and "G' = G"
  | (added) ip where "\<not> skip r" and "net_addr r = Str ip"
      and "G' = add_edge (Proc (net_pid r)) (Ip ip) (conn_attrs r) (add_node (Ip ip) (ip_attrs ip) G)"
  using assms by (auto simp: conn_step_def split: if_splits cell.splits)

lemma node_set_conn_step:
  assumes "conn_step r G = Inr G'"
  shows "node_set G' = node_set G \<union> {Proc (net_pid r) | r'. r' = r \<and> \<not> skip r}
           \<union> {Ip s | s. \<not> skip r \<and> net_addr r = Str s}"
  using assms by (cases rule: conn_step_cases) (auto simp: node_set_add_edge node_set_add_node)

lemma edge_set_conn_step:
  assumes "conn_step r G = Inr G'"
  shows "edge_set G' = edge_set G \<union> {(Proc (net_pid r), Ip s) | s. \<not> skip r \<and> net_addr r = Str s}"
  using assms by (cases rule: conn_step_cases) (auto simp: edge_set_add_edge edge_set_add_node)

lemma node_attrs_conn_step_Proc:
  assumes "conn_step r G = Inr G'"
  shows "node_attrs G' (Proc p) =
     (case node_attrs G (Proc p) of Some d \<Rightarrow> Some d
      | None \<Rightarrow> if \<not> skip r \<and> net_pid r = p then Some [] else None)"
  using assms
  by (cases rule: conn_step_cases)
     (auto simp: node_attrs_add_edge node_attrs_add_node split: option.splits)

lemma ip_inv_conn_step:
  assumes "conn_step r G = Inr G'" and "ip_inv G"
  shows "ip_inv G'"
  using assms(1)
proof (cases rule: conn_step_cases)
  case skipped
  with assms(2) show ?thesis by simp
next
  case (added ip)
  have "get_or_empty (nodes G) (Ip ip) = [] \<or> get_or_empty (nodes G) (Ip ip) = ip_attrs ip"
    using assms(2) by (auto simp: get_or_empty_nodes ip_inv_def split: option.splits)
  then have "dict_update (get_or_empty (nodes G) (Ip ip)) (ip_attrs ip) = ip_attrs ip"
    by (rule dict_update_ip_attrs)
  with added assms(2) show ?thesis
    by (auto simp: ip_inv_def node_attrs_add_edge node_attrs_add_node split: option.splits if_splits)
qed

lemma node_set_conn_loop:
  "conn_loop rs G = Inr G' \<Longrightarrow>
   node_set G' = node_set G \<union> {Proc (net_pid r) | r. r \<in> set rs \<and> \<not> skip r}
     \<union> {Ip s | r s. r \<in> set rs \<and> \<not> skip r \<and> net_addr r = Str s}"
proof (induction rs arbitrary: G)
  case Nil
  then show ?case by simp
next
  case (Cons r rs)
  then obtain G1 where 1: "conn_step r G = Inr G1" and 2: "conn_loop rs G1 = Inr G'"
    by (auto split: sum.splits)
  show ?case
    unfolding Cons.IH [OF 2] node_set_conn_step [OF 1] by auto
qed

lemma edge_set_conn_loop:
  "conn_loop rs G = Inr G' \<Longrightarrow>
   edge_set G' = edge_set G \<union> {(Proc (net_pid r), Ip s) | r s. r \<in> set rs \<and> \<not> skip r \<and> net_addr r = Str s}"
proof (induction rs arbitrary: G)
  case Nil
  then show ?case by simp
next
  case (Cons r rs)
  then obtain G1 where 1: "conn_step r G = Inr G1" and 2: "conn_loop rs G1 = Inr G'"
    by (auto split: sum.splits)
  show ?case
    unfolding Cons.IH [OF 2] edge_set_conn_step [OF 1] by auto
qed

lemma node_attrs_conn_loop_Proc:
  "conn_loop rs G = Inr G' \<Longrightarrow>
   node_attrs G' (Proc p) =
     (case node_attrs G (Proc p) of Some d \<Rightarrow> Some d
      | None \<Rightarrow> if \<exists>r\<in>set rs. \<not> skip r \<and> net_pid r = p then Some [] else None)"
proof (induction rs arbitrary: G)
  case Nil
  then show ?case by (simp split: option.splits)
next
  case (Cons r rs)
  then obtain G1 where 1: "conn_step r G = Inr G1" and 2: "conn_loop rs G1 = Inr G'"
    by (auto split: sum.splits)
  show ?case
    unfolding Cons.IH [OF 2] node_attrs_conn_step_Proc [OF 1]
    by (auto split: option.splits)
qed

lemma ip_inv_conn_loop: "conn_loop rs G = Inr G' \<Longrightarrow> ip_inv G \<Longrightarrow> ip_inv G'"
proof (induction rs arbitrary: G)
  case Nil
  then show ?case by simp
next
  case (Cons r rs)
  then obtain G1 where 1: "conn_step r G = Inr G1" and 2: "conn_loop rs G1 = Inr G'"
    by (auto split: sum.splits)
  from Cons.IH [OF 2 ip_inv_conn_step [OF 1 Cons.prems(2)]] show ?case .
qed

lemma conn_loop_total:
  "\<forall>r\<in>set rs. \<exists>s. net_addr r = Str s \<Longrightarrow> \<exists>G'. conn_loop rs G = Inr G'"
proof (induction rs arbitrary: G)
  case Nil
  show ?case by simp
next
  case (Cons r rs)
  then obtain s where "net_addr r = Str s" by auto
  then have "\<exists>G1. conn_step r G = Inr G1"
    by (simp add: conn_step_def)
  then obtain G1 where "conn_step r G = Inr G1" ..
  with Cons show ?case by simp
qed

lemma ip_inv_proc_loop: "ip_inv (proc_loop ps net empty_graph)"
  by (simp add: ip_inv_def proc_loop_def node_attrs_proc_fold_Ip)

lemma distinct_touch: "distinct (map fst ns) \<Longrightarrow> distinct (map fst (touch n ns))"
  by (auto simp: touch_def)

lemma distinct_keys_empty: "distinct_keys empty_graph"
  by (simp add: distinct_keys_def empty_graph_def)

lemma distinct_keys_add_node: "distinct_keys G \<Longrightarrow> distinct_keys (add_node n a G)"
  by (simp add: distinct_keys_def add_node_def distinct_update)

lemma distinct_keys_add_edge: "distinct_keys G \<Longrightarrow> distinct_keys (add_edge u v a G)"
  by (simp add: distinct_keys_def add_edge_def distinct_update distinct_touch)

lemma distinct_keys_proc_step: "distinct_keys G \<Longrightarrow> distinct_keys (proc_step ps net r G)"
  by (simp add: proc_step_def Let_def distinct_keys_add_node distinct_keys_add_edge)

lemma distinct_keys_proc_fold:
  "distinct_keys G \<Longrightarrow> distinct_keys (fold (proc_step ps net) rs G)"
  by (induction rs arbitrary: G) (simp_all add: distinct_keys_proc_step)

lemma distinct_keys_conn_step:
  "conn_step r G = Inr G' \<Longrightarrow> distinct_keys G \<Longrightarrow> distinct_keys G'"
  by (erule conn_step_cases) (simp_all add: distinct_keys_add_node distinct_keys_add_edge)

lemma distinct_keys_conn_loop:
  "conn_loop rs G = Inr G' \<Longrightarrow> distinct_keys G \<Longrightarrow> distinct_keys G'"
proof (induction rs arbitrary: G)
  case Nil
  then show ?case by simp
next
  case (Cons r rs)
  then obtain G1 where 1: "conn_step r G = Inr G1" and 2: "conn_loop rs G1 = Inr G'"
    by (auto split: sum.splits)
  from Cons.IH [OF 2 distinct_keys_conn_step [OF 1 Cons.prems(2)]] show ?case .
qed

lemma edge_attrs_add_node: "edge_attrs (add_node n a G) e = edge_attrs G e"
  by (simp add: edge_attrs_def add_node_def)

lemma edge_attrs_add_edge:
  "edge_attrs (add_edge u v a G) e =
     (if e = (u, v) then Some (dict_update (get_or_empty (edges G) (u, v)) a) else edge_attrs G e)"
  by (simp add: edge_attrs_def add_edge_def update_conv')

lemma style_dict_update_solid: "map_of (dict_update d [(''style'', ''solid'')]) ''style'' = Some ''solid''"
  by (simp add: dict_update_def update_conv')

lemma style_dict_update_dashed: "map_of (dict_update d (conn_attrs r)) ''style'' = Some ''dashed''"
  by (simp add: dict_update_def conn_attrs_def update_conv')

lemma style_inv_empty: "style_inv empty_graph"
  by (simp add: style_inv_def edge_attrs_def empty_graph_def)

lemma style_inv_proc_step: "style_inv G \<Longrightarrow> style_inv (proc_step ps net r G)"
  by (auto simp: style_inv_def proc_step_def Let_def edge_attrs_add_node edge_attrs_add_edge
      style_dict_update_solid)

lemma style_inv_proc_fold: "style_inv G \<Longrightarrow> style_inv (fold (proc_step ps net) rs G)"
  by (induction rs arbitrary: G) (simp_all add: style_inv_proc_step)

lemma style_inv_conn_step: "conn_step r G = Inr G' \<Longrightarrow> style_inv G \<Longrightarrow> style_inv G'"
  by (erule conn_step_cases)
     (auto simp: style_inv_def edge_attrs_add_node edge_attrs_add_edge style_dict_update_dashed)

lemma style_inv_conn_loop: "conn_loop rs G = Inr G' \<Longrightarrow> style_inv G \<Longrightarrow> style_inv G'"
proof (induction rs arbitrary: G)
  case Nil
  then show ?case by simp
next
  case (Cons r rs)
  then obtain G1 where 1: "conn_step r G = Inr G1" and 2: "conn_loop rs G1 = Inr G'"
    by (auto split: sum.splits)
  from Cons.IH [OF 2 style_inv_conn_step [OF 1 Cons.prems(2)]] show ?case .
qed

lemma edge_attrs_None: "edge_attrs G e = None \<longleftrightarrow> e \<notin> edge_set G"
  by (simp add: edge_attrs_def edge_set_def map_of_eq_None_iff)

lemma solid_edges_style_inv:
  "style_inv G \<Longrightarrow> solid_edges G = {(u, v). (u, v) \<in> edge_set G \<and> is_Proc v}"
proof -
  assume inv: "style_inv G"
  have "\<And>u v. (u, v) \<in> solid_edges G \<longleftrightarrow> (u, v) \<in> edge_set G \<and> is_Proc v"
  proof -
    fix u v
    show "(u, v) \<in> solid_edges G \<longleftrightarrow> (u, v) \<in> edge_set G \<and> is_Proc v"
    proof (cases "edge_attrs G (u, v)")
      case None
      then show ?thesis
        by (simp add: solid_edges_def edge_attrs_None [symmetric])
    next
      case (Some d)
      with inv have "map_of d ''style'' = Some (if is_Proc v then ''solid'' else ''dashed'')"
        by (simp add: style_inv_def)
      moreover from Some have "(u, v) \<in> edge_set G"
        using edge_attrs_None [of G "(u, v)"] by simp
      ultimately show ?thesis
        using Some by (simp add: solid_edges_def)
    qed
  qed
  then show ?thesis by auto
qed

lemma node_colors_Inl: "node_colors G = Inl e \<Longrightarrow> e = KeyError ''color''"
  by (auto simp: node_colors_def getitem_def dest!: map_exn_Inl split: option.splits)

lemma node_colors_Inr:
  assumes "distinct_keys G"
  shows "(\<exists>cs. node_colors G = Inr cs) \<longleftrightarrow>
           (\<forall>n d. node_attrs G n = Some d \<longrightarrow> map_of d ''color'' \<noteq> None)"
proof -
  have mem: "\<And>n d. (n, d) \<in> set (nodes G) \<longleftrightarrow> node_attrs G n = Some d"
    using assms by (simp add: node_attrs_def distinct_keys_def)
  have "(\<exists>cs. node_colors G = Inr cs) \<longleftrightarrow>
          (\<forall>nd\<in>set (nodes G). \<exists>c. getitem (snd nd) ''color'' = Inr c)"
    unfolding node_colors_def map_exn_Inr by (simp add: case_prod_beta)
  also have "\<dots> \<longleftrightarrow> (\<forall>n d. (n, d) \<in> set (nodes G) \<longrightarrow> map_of d ''color'' \<noteq> None)"
    by (auto simp: getitem_def split: option.splits)
  finally show ?thesis
    by (simp add: mem)
qed

lemma skip_loaded:
  assumes "load_netscan num nf = Inr net" and "r \<in> set net"
  shows "skip r \<longleftrightarrow> net_pid r = 0"
proof -
  from assms obtain s where "net_addr r = Str s" and "re_match_ipv4 s"
    by (rule retained_row_text)
  then show ?thesis
    by (auto simp: skip_def dest: re_match_ipv4_nonempty)
qed

lemma build_graph_loaded:
  assumes "load_netscan num nf = Inr net"
  obtains G where "build_graph ps net = Inr G"
    and "node_set G = Proc ` ps_pid ` set ps \<union> {Proc (net_pid r) | r. r \<in> set net \<and> net_pid r \<noteq> 0}
           \<union> {Ip s | r s. r \<in> set net \<and> net_pid r \<noteq> 0 \<and> net_addr r = Str s}"
    and "edge_set G = {(Proc (ps_ppid r), Proc (ps_pid r)) | r. r \<in> set ps \<and> has_parent ps r}
           \<union> {(Proc (net_pid r), Ip s) | r s. r \<in> set net \<and> net_pid r \<noteq> 0 \<and> net_addr r = Str s}"
    and "\<And>p. node_attrs G (Proc p) =
           (case find (\<lambda>r. ps_pid r = p) (rev ps) of
              Some r \<Rightarrow> Some (proc_attrs net r)
            | None \<Rightarrow> if \<exists>r\<in>set net. net_pid r \<noteq> 0 \<and> net_pid r = p then Some [] else None)"
    and "ip_inv G" and "distinct_keys G" and "style_inv G"
proof -
  let ?G0 = "proc_loop ps net empty_graph"
  have sk: "\<And>r. r \<in> set net \<Longrightarrow> \<not> skip r \<longleftrightarrow> net_pid r \<noteq> 0"
    using skip_loaded [OF assms] by simp
  have "\<forall>r\<in>set net. \<exists>s. net_addr r = Str s"
    using retained_row_text [OF assms] by metis
  then obtain G where G: "conn_loop net ?G0 = Inr G"
    using conn_loop_total by blast
  have 1: "build_graph ps net = Inr G"
    using G by (simp add: build_graph_def)
  have 2: "node_set G = Proc ` ps_pid ` set ps \<union> {Proc (net_pid r) | r. r \<in> set net \<and> net_pid r \<noteq> 0}
           \<union> {Ip s | r s. r \<in> set net \<and> net_pid r \<noteq> 0 \<and> net_addr r = Str s}"
    unfolding node_set_conn_loop [OF G] node_set_proc_loop using sk by auto
  have 3: "edge_set G = {(Proc (ps_ppid r), Proc (ps_pid r)) | r. r \<in> set ps \<and> has_parent ps r}
           \<union> {(Proc (net_pid r), Ip s) | r s. r \<in> set net \<and> net_pid r \<noteq> 0 \<and> net_addr r = Str s}"
    unfolding edge_set_conn_loop [OF G] edge_set_proc_loop using sk by auto
  have 4: "node_attrs G (Proc p) =
           (case find (\<lambda>r. ps_pid r = p) (rev ps) of
              Some r \<Rightarrow> Some (proc_attrs net r)
            | None \<Rightarrow> if \<exists>r\<in>set net. net_pid r \<noteq> 0 \<and> net_pid r = p then Some [] else None)" for p
  proof -
    have "(\<exists>r\<in>set net. \<not> skip r \<and> net_pid r = p) \<longleftrightarrow> (\<exists>r\<in>set net. net_pid r \<noteq> 0 \<and> net_pid r = p)"
      using sk by auto
    then show ?thesis
      unfolding node_attrs_conn_loop_Proc [OF G] node_attrs_proc_loop
      by (simp split: option.splits)
  qed
  have 5: "ip_inv G"
    using G ip_inv_proc_loop by (rule ip_inv_conn_loop)
  have 6: "distinct_keys G"
    using G by (rule distinct_keys_conn_loop)
       (simp add: proc_loop_def distinct_keys_proc_fold distinct_keys_empty)
  have 7: "style_inv G"
    using G by (rule style_inv_conn_loop)
       (simp add: proc_loop_def style_inv_proc_fold style_inv_empty)
  from 1 2 3 4 5 6 7 show thesis by (rule that)
qed

lemma find_in_list: "x \<in> set xs \<Longrightarrow> P x \<Longrightarrow> \<exists>y. find P xs = Some y \<and> P y \<and> y \<in> set xs"
  by (induction xs) auto

lemma color_proc_attrs: "getitem (proc_attrs net r) ''color'' = Inr (proc_color net (ps_pid r))"
  by (simp add: getitem_def proc_attrs_def)

subsection \<open>The example tables, loaded\<close>

lemma ex_pslist_loaded: "load_pslist no_num (Table ex_pslist) = Inr ex_pslist_df"
  by code_simp

lemma ex_pslist_gaps_loaded: "load_pslist no_num (Table ex_pslist_gaps) = Inr ex_pslist_gaps_df"
  by code_simp

lemma ex_pslist_inf_fails: "load_pslist no_num (Table ex_pslist_inf) = Inl IntCastingNaNError"
  by code_simp


lemma ex_netscan_empty_loaded: "load_netscan no_num (Table ex_netscan_empty) = Inr []"
  by code_simp

lemma ex_netscan_loaded: "load_netscan no_num (Table ex_netscan) = Inr ex_netscan_df"
  by code_simp

lemma ex_netscan_orphan_loaded: "load_netscan no_num (Table ex_netscan_orphan) = Inr ex_netscan_orphan_df"
  by code_simp

lemma ex_netscan_no_proto_fails: "load_netscan no_num (Table ex_netscan_no_proto) = Inl (KeyError ''Proto'')"
  by code_simp

lemma color_ip_attrs:
  "getitem (ip_attrs ip) ''color'' =
     Inr (if startswith ip ''192.168.'' \<or> startswith ip ''10.'' then ''lightgreen'' else ''orange'')"
  by (simp add: getitem_def ip_attrs_def ip_color_def)

lemma label_proc_attrs:
  "getitem (proc_attrs net r) ''label'' =
     Inr (format_cell (ps_name r) @ '' ('' @ str_int (ps_pid r) @ '')'')"
  by (simp add: getitem_def proc_attrs_def)

lemma color_in_proc_attrs: "map_of (proc_attrs net r) ''color'' = Some (proc_color net (ps_pid r))"
  by (simp add: proc_attrs_def)

lemma color_in_ip_attrs: "map_of (ip_attrs ip) ''color'' = Some (ip_color ip)"
  by (simp add: ip_attrs_def)

lemma run_Exit1:
  "(\<exists>m. run num pslist_csv netscan_csv show_ok = Exit1 m) \<longleftrightarrow>
     (\<exists>e. load_pslist num pslist_csv = Inl e) \<or> (\<exists>e. load_netscan num netscan_csv = Inl e)"
  by (auto simp: run_def split: sum.splits)

section \<open>Claims\<close>

text \<open>
  C1. For every row of the loaded pslist table, the node of its PID in the built graph has
  the colour \<^verbatim>\<open>red\<close> exactly when that PID occurs among the PIDs of the connection rows
  kept by the filter, and \<^verbatim>\<open>lightblue\<close> otherwise. The graph is always built from two
  loaded tables.
\<close>

theorem process_node_color:
  assumes "load_pslist num pslist_csv = Inr pslist_df"
    and "load_netscan num netscan_csv = Inr netscan_df"
    and "r \<in> set pslist_df"
  shows "\<exists>G d. build_graph pslist_df netscan_df = Inr G \<and>
           node_attrs G (Proc (ps_pid r)) = Some d \<and>
           getitem d ''color'' =
             Inr (if ps_pid r \<in> net_pid ` set netscan_df then ''red'' else ''lightblue'')"
proof -
  from assms(2) obtain G where G: "build_graph pslist_df netscan_df = Inr G"
    and a: "\<And>p. node_attrs G (Proc p) =
           (case find (\<lambda>r. ps_pid r = p) (rev pslist_df) of
              Some r \<Rightarrow> Some (proc_attrs netscan_df r)
            | None \<Rightarrow> if \<exists>r\<in>set netscan_df. net_pid r \<noteq> 0 \<and> net_pid r = p then Some [] else None)"
    by (rule build_graph_loaded [where ps = pslist_df]) blast
  from assms(3) obtain r' where "find (\<lambda>x. ps_pid x = ps_pid r) (rev pslist_df) = Some r'"
    and "ps_pid r' = ps_pid r"
    using find_in_list [of r "rev pslist_df" "\<lambda>x. ps_pid x = ps_pid r"] by auto
  then have "node_attrs G (Proc (ps_pid r)) = Some (proc_attrs netscan_df r')"
    and "getitem (proc_attrs netscan_df r') ''color'' =
           Inr (if ps_pid r \<in> net_pid ` set netscan_df then ''red'' else ''lightblue'')"
    by (simp_all add: a color_proc_attrs proc_color_def)
  with G show ?thesis by blast
qed

theorem process_node_color_witness:
  "load_pslist no_num (Table ex_pslist) = Inr ex_pslist_df \<and>
   load_netscan no_num (Table ex_netscan) = Inr ex_netscan_df \<and>
   \<lparr>ps_pid = 8, ps_ppid = 4, ps_name = Str ''smss.exe''\<rparr> \<in> set ex_pslist_df \<and>
   (\<exists>G d. build_graph ex_pslist_df ex_netscan_df = Inr G \<and>
      node_attrs G (Proc 8) = Some d \<and> getitem d ''color'' = Inr ''red'')"
proof -
  have r: "\<lparr>ps_pid = 8, ps_ppid = 4, ps_name = Str ''smss.exe''\<rparr> \<in> set ex_pslist_df"
    by (simp add: ex_pslist_df_def)
  from process_node_color [OF ex_pslist_loaded ex_netscan_loaded r] show ?thesis
    using r by (simp add: ex_pslist_loaded ex_netscan_loaded ex_netscan_df_def)
qed

text \<open>
  C2. When the netscan table loads, the rows kept are exactly the rows of the table, in
  file order, whose \<^verbatim>\<open>Proto\<close> is the text \<^verbatim>\<open>TCPv4\<close>, whose \<^verbatim>\<open>ForeignAddr\<close> is a text
  matching the pattern (four non-empty digit runs separated by dots, up to the end of the
  text or to a final newline, which is what \<^verbatim>\<open>$\<close> accepts), and whose \<^verbatim>\<open>ForeignAddr\<close> is
  not \<^verbatim>\<open>0.0.0.0\<close>. The predicate \<open>retained\<close> is written from that description, the
  loader from the column-wise masks of the source; each kept row appears with its \<^verbatim>\<open>PID\<close>
  and \<^verbatim>\<open>ForeignPort\<close> coerced to integers (\<open>net_row_of\<close>).
\<close>

theorem netscan_filter:
  assumes "load_netscan num netscan_csv = Inr netscan_df"
  shows "\<exists>f. netscan_csv = Table f \<and>
           map_exn (net_row_of num) (filter retained (rows f)) = Inr netscan_df"
  using assms by (auto simp: load_netscan_Inr keep_retained)

theorem netscan_filter_witness:
  "load_netscan no_num (Table ex_netscan) = Inr ex_netscan_df \<and>
   (\<exists>f. Table ex_netscan = Table f \<and>
      map_exn (net_row_of no_num) (filter retained (rows f)) = Inr ex_netscan_df)"
  using netscan_filter [OF ex_netscan_loaded] ex_netscan_loaded by simp

text \<open>
  C6. For every kept connection row with a nonzero PID, the node of its address in the
  built graph has the colour \<^verbatim>\<open>lightgreen\<close> when the address starts with \<^verbatim>\<open>192.168.\<close> or
  with \<^verbatim>\<open>10.\<close>, and \<^verbatim>\<open>orange\<close> otherwise.
\<close>

theorem ip_node_color:
  assumes "load_pslist num pslist_csv = Inr pslist_df"
    and "load_netscan num netscan_csv = Inr netscan_df"
    and "r \<in> set netscan_df" and "net_pid r \<noteq> 0"
  shows "\<exists>G ip d. build_graph pslist_df netscan_df = Inr G \<and> net_addr r = Str ip \<and>
           node_attrs G (Ip ip) = Some d \<and>
           getitem d ''color'' =
             Inr (if startswith ip ''192.168.'' \<or> startswith ip ''10.'' then ''lightgreen''
                  else ''orange'')"
proof -
  from assms(2) obtain G where G: "build_graph pslist_df netscan_df = Inr G"
    and n: "node_set G = Proc ` ps_pid ` set pslist_df
           \<union> {Proc (net_pid r) | r. r \<in> set netscan_df \<and> net_pid r \<noteq> 0}
           \<union> {Ip s | r s. r \<in> set netscan_df \<and> net_pid r \<noteq> 0 \<and> net_addr r = Str s}"
    and i: "ip_inv G"
    by (rule build_graph_loaded [where ps = pslist_df]) blast
  from assms(2,3) obtain ip where ip: "net_addr r = Str ip"
    by (rule retained_row_text)
  with assms(3,4) have "Ip ip \<in> node_set G"
    unfolding n by blast
  then obtain d where d: "node_attrs G (Ip ip) = Some d"
    using node_attrs_None [of G "Ip ip"] by auto
  with i have "d = ip_attrs ip"
    by (simp add: ip_inv_def)
  with G ip d show ?thesis
    by (simp add: color_ip_attrs)
qed

theorem ip_node_color_witness:
  "load_pslist no_num (Table ex_pslist) = Inr ex_pslist_df \<and>
   load_netscan no_num (Table ex_netscan) = Inr ex_netscan_df \<and>
   \<lparr>net_pid = 8, net_addr = Str ''192.168.1.5'', net_port = 445, net_proto = Str ''TCPv4''\<rparr>
     \<in> set ex_netscan_df \<and>
   (\<exists>G d. build_graph ex_pslist_df ex_netscan_df = Inr G \<and>
      node_attrs G (Ip ''192.168.1.5'') = Some d \<and> getitem d ''color'' = Inr ''lightgreen'')"
proof -
  have r: "\<lparr>net_pid = 8, net_addr = Str ''192.168.1.5'', net_port = 445, net_proto = Str ''TCPv4''\<rparr>
             \<in> set ex_netscan_df"
    by (simp add: ex_netscan_df_def)
  from ip_node_color [OF ex_pslist_loaded ex_netscan_loaded r] show ?thesis
    using r by (simp add: ex_pslist_loaded ex_netscan_loaded startswith_def)
qed

text \<open>
  C7. Rows are processed in file order and a later \<^verbatim>\<open>add_node\<close> overwrites the attributes
  of an earlier one: when two pslist rows have the same PID and no row after the second
  has it, the node of that PID carries the label and the colour computed from the second.
\<close>

theorem later_row_wins:
  assumes "load_pslist num pslist_csv = Inr pslist_df"
    and "load_netscan num netscan_csv = Inr netscan_df"
    and "pslist_df = xs @ r1 # ys @ r2 # zs"
    and "ps_pid r1 = ps_pid r2" and "ps_pid r2 \<notin> ps_pid ` set zs"
  shows "\<exists>G d. build_graph pslist_df netscan_df = Inr G \<and>
           node_attrs G (Proc (ps_pid r2)) = Some d \<and>
           getitem d ''label'' = Inr (format_cell (ps_name r2) @ '' ('' @ str_int (ps_pid r2) @ '')'') \<and>
           getitem d ''color'' = Inr (proc_color netscan_df (ps_pid r2))"
proof -
  from assms(2) obtain G where G: "build_graph pslist_df netscan_df = Inr G"
    and a: "\<And>p. node_attrs G (Proc p) =
           (case find (\<lambda>r. ps_pid r = p) (rev pslist_df) of
              Some r \<Rightarrow> Some (proc_attrs netscan_df r)
            | None \<Rightarrow> if \<exists>r\<in>set netscan_df. net_pid r \<noteq> 0 \<and> net_pid r = p then Some [] else None)"
    by (rule build_graph_loaded [where ps = pslist_df]) blast
  have "pslist_df = (xs @ r1 # ys) @ r2 # zs"
    using assms(3) by simp
  then have "find (\<lambda>r. ps_pid r = ps_pid r2) (rev pslist_df) = Some r2"
    using find_last_row [OF assms(5), of "xs @ r1 # ys"] by simp
  then have "node_attrs G (Proc (ps_pid r2)) = Some (proc_attrs netscan_df r2)"
    by (simp add: a)
  with G show ?thesis
    by (simp add: label_proc_attrs color_proc_attrs)
qed

theorem later_row_wins_witness:
  "load_pslist no_num (Table ex_pslist) = Inr ex_pslist_df \<and>
   load_netscan no_num (Table ex_netscan) = Inr ex_netscan_df \<and>
   ex_pslist_df =
     [\<lparr>ps_pid = 4, ps_ppid = 0, ps_name = Str ''System''\<rparr>] @
     \<lparr>ps_pid = 8, ps_ppid = 4, ps_name = Str ''smss.exe''\<rparr> # [] @
     \<lparr>ps_pid = 8, ps_ppid = 4, ps_name = Str ''csrss.exe''\<rparr> # [] \<and>
   (\<exists>G d. build_graph ex_pslist_df ex_netscan_df = Inr G \<and>
      node_attrs G (Proc 8) = Some d \<and>
      getitem d ''label'' = Inr ''csrss.exe (8)'' \<and> getitem d ''color'' = Inr ''red'')"
proof -
  have s: "ex_pslist_df =
     [\<lparr>ps_pid = 4, ps_ppid = 0, ps_name = Str ''System''\<rparr>] @
     \<lparr>ps_pid = 8, ps_ppid = 4, ps_name = Str ''smss.exe''\<rparr> # [] @
     \<lparr>ps_pid = 8, ps_ppid = 4, ps_name = Str ''csrss.exe''\<rparr> # []"
    by (simp add: ex_pslist_df_def)
  have l: "str_int 8 = ''8''"
    by code_simp
  have c: "proc_color ex_netscan_df 8 = ''red''"
    by (simp add: proc_color_def ex_netscan_df_def)
  from later_row_wins [OF ex_pslist_loaded ex_netscan_loaded s] show ?thesis
    using s by (simp add: ex_pslist_loaded ex_netscan_loaded l c)
qed

text \<open>
  C9. Every kept connection row has a text as \<^verbatim>\<open>ForeignAddr\<close>, and that text is not
  empty; so \<^verbatim>\<open>not ip\<close> is false for it and the skip test of the connection loop holds
  exactly when the row's PID is 0.
\<close>

theorem retained_addr_nonempty:
  assumes "load_netscan num netscan_csv = Inr netscan_df" and "r \<in> set netscan_df"
  shows "\<exists>ip. net_addr r = Str ip \<and> ip \<noteq> [] \<and> \<not> py_not (net_addr r) \<and>
           (skip r \<longleftrightarrow> net_pid r = 0)"
proof -
  from assms obtain ip where "net_addr r = Str ip" and "re_match_ipv4 ip"
    by (rule retained_row_text)
  moreover from this have "ip \<noteq> []"
    by (simp add: re_match_ipv4_nonempty)
  ultimately show ?thesis
    by (simp add: skip_def)
qed

theorem retained_addr_nonempty_witness:
  "load_netscan no_num (Table ex_netscan) = Inr ex_netscan_df \<and>
   \<lparr>net_pid = 0, net_addr = Str ''1.2.3.4'', net_port = 80, net_proto = Str ''TCPv4''\<rparr>
     \<in> set ex_netscan_df \<and>
   skip \<lparr>net_pid = 0, net_addr = Str ''1.2.3.4'', net_port = 80, net_proto = Str ''TCPv4''\<rparr>"
proof -
  have r: "\<lparr>net_pid = 0, net_addr = Str ''1.2.3.4'', net_port = 80, net_proto = Str ''TCPv4''\<rparr>
             \<in> set ex_netscan_df"
    by (simp add: ex_netscan_df_def)
  from retained_addr_nonempty [OF ex_netscan_loaded r] show ?thesis
    using r by (simp add: ex_netscan_loaded)
qed




text \<open>
  C8. Line 88 reads the \<^verbatim>\<open>color\<close> attribute of every node. On loaded tables it
  succeeds exactly when every kept connection row with a nonzero PID has its PID in the
  pslist table. For a kept row whose nonzero PID is not in pslist, \<^verbatim>\<open>add_edge\<close> has made
  a node without attributes, the lookup raises \<^verbatim>\<open>KeyError\<close>, and the run ends there with
  the uncaught exception.
\<close>

theorem missing_color:
  assumes "load_pslist num pslist_csv = Inr pslist_df"
    and "load_netscan num netscan_csv = Inr netscan_df"
  shows "\<exists>G. build_graph pslist_df netscan_df = Inr G \<and>
     ((\<exists>colors. node_colors G = Inr colors) \<longleftrightarrow>
        (\<forall>r\<in>set netscan_df. net_pid r \<noteq> 0 \<longrightarrow> net_pid r \<in> ps_pid ` set pslist_df)) \<and>
     (\<forall>r\<in>set netscan_df. net_pid r \<noteq> 0 \<and> net_pid r \<notin> ps_pid ` set pslist_df \<longrightarrow>
        node_attrs G (Proc (net_pid r)) = Some [] \<and>
        node_colors G = Inl (KeyError ''color'') \<and>
        run num pslist_csv netscan_csv show_ok = Traceback (KeyError ''color''))"
proof -
  from assms(2) obtain G where G: "build_graph pslist_df netscan_df = Inr G"
    and a: "\<And>p. node_attrs G (Proc p) =
           (case find (\<lambda>r. ps_pid r = p) (rev pslist_df) of
              Some r \<Rightarrow> Some (proc_attrs netscan_df r)
            | None \<Rightarrow> if \<exists>r\<in>set netscan_df. net_pid r \<noteq> 0 \<and> net_pid r = p then Some [] else None)"
    and i: "ip_inv G" and d: "distinct_keys G"
    by (rule build_graph_loaded [where ps = pslist_df]) blast
  let ?ok = "\<forall>r\<in>set netscan_df. net_pid r \<noteq> 0 \<longrightarrow> net_pid r \<in> ps_pid ` set pslist_df"
  have orphan: "node_attrs G (Proc (net_pid r)) = Some []"
    if "r \<in> set netscan_df" "net_pid r \<noteq> 0" "net_pid r \<notin> ps_pid ` set pslist_df" for r
  proof -
    from that(3) have "\<forall>x\<in>set pslist_df. ps_pid x \<noteq> net_pid r"
      by (metis imageI)
    then have "find (\<lambda>x. ps_pid x = net_pid r) (rev pslist_df) = None"
      by (simp add: find_None_iff)
    with that(1,2) show ?thesis
      by (auto simp: a)
  qed
  have 1: "(\<exists>colors. node_colors G = Inr colors) \<longleftrightarrow> ?ok"
  proof
    assume "\<exists>colors. node_colors G = Inr colors"
    then have c: "\<And>n d. node_attrs G n = Some d \<Longrightarrow> map_of d ''color'' \<noteq> None"
      unfolding node_colors_Inr [OF d] by blast
    show ?ok
    proof (intro ballI impI, rule ccontr)
      fix r assume "r \<in> set netscan_df" "net_pid r \<noteq> 0" "net_pid r \<notin> ps_pid ` set pslist_df"
      then have "node_attrs G (Proc (net_pid r)) = Some []"
        by (rule orphan)
      from c [OF this] show False by simp
    qed
  next
    assume ok: ?ok
    have "map_of d' ''color'' \<noteq> None" if "node_attrs G n = Some d'" for n d'
    proof (cases n)
      case (Proc p)
      show ?thesis
      proof (cases "find (\<lambda>r. ps_pid r = p) (rev pslist_df)")
        case None
        then have "p \<notin> ps_pid ` set pslist_df"
          by (auto simp: find_None_iff)
        with ok have "\<not> (\<exists>r\<in>set netscan_df. net_pid r \<noteq> 0 \<and> net_pid r = p)"
          by auto
        with None that Proc show ?thesis
          by (simp add: a)
      next
        case (Some r)
        with that Proc show ?thesis
          by (auto simp: a color_in_proc_attrs)
      qed
    next
      case (Ip s)
      with that i have "d' = ip_attrs s"
        by (simp add: ip_inv_def)
      then show ?thesis
        by (simp add: color_in_ip_attrs)
    qed
    then show "\<exists>colors. node_colors G = Inr colors"
      unfolding node_colors_Inr [OF d] by blast
  qed
  have 2: "node_attrs G (Proc (net_pid r)) = Some [] \<and>
        node_colors G = Inl (KeyError ''color'') \<and>
        run num pslist_csv netscan_csv show_ok = Traceback (KeyError ''color'')"
    if "r \<in> set netscan_df" "net_pid r \<noteq> 0 \<and> net_pid r \<notin> ps_pid ` set pslist_df" for r
  proof -
    from that have "\<not> ?ok" by blast
    with 1 have "\<not> (\<exists>colors. node_colors G = Inr colors)" by simp
    then obtain e where "node_colors G = Inl e"
      by (cases "node_colors G") auto
    then have nc: "node_colors G = Inl (KeyError ''color'')"
      using node_colors_Inl by blast
    then have "run num pslist_csv netscan_csv show_ok = Traceback (KeyError ''color'')"
      by (simp add: run_def assms G)
    with nc orphan that show ?thesis by simp
  qed
  have 3: "\<forall>r\<in>set netscan_df. net_pid r \<noteq> 0 \<and> net_pid r \<notin> ps_pid ` set pslist_df \<longrightarrow>
        node_attrs G (Proc (net_pid r)) = Some [] \<and>
        node_colors G = Inl (KeyError ''color'') \<and>
        run num pslist_csv netscan_csv show_ok = Traceback (KeyError ''color'')"
  proof (intro ballI impI)
    fix r
    assume "r \<in> set netscan_df" "net_pid r \<noteq> 0 \<and> net_pid r \<notin> ps_pid ` set pslist_df"
    then show "node_attrs G (Proc (net_pid r)) = Some [] \<and>
        node_colors G = Inl (KeyError ''color'') \<and>
        run num pslist_csv netscan_csv show_ok = Traceback (KeyError ''color'')"
      by (rule 2)
  qed
  from G 1 3 show ?thesis
    by (intro exI [of _ G] conjI)
qed

theorem missing_color_witness:
  "load_pslist no_num (Table ex_pslist) = Inr ex_pslist_df \<and>
   load_netscan no_num (Table ex_netscan_orphan) = Inr ex_netscan_orphan_df \<and>
   \<lparr>net_pid = 9, net_addr = Str ''8.8.8.8'', net_port = 443, net_proto = Str ''TCPv4''\<rparr>
     \<in> set ex_netscan_orphan_df \<and>
   9 \<notin> ps_pid ` set ex_pslist_df \<and>
   run no_num (Table ex_pslist) (Table ex_netscan_orphan) True = Traceback (KeyError ''color'')"
proof -
  have r: "\<lparr>net_pid = 9, net_addr = Str ''8.8.8.8'', net_port = 443, net_proto = Str ''TCPv4''\<rparr>
     \<in> set ex_netscan_orphan_df"
    by (simp add: ex_netscan_orphan_df_def)
  have p: "9 \<notin> ps_pid ` set ex_pslist_df"
    by (simp add: ex_pslist_df_def)
  from missing_color [OF ex_pslist_loaded ex_netscan_orphan_loaded, of True]
  obtain G where *: "build_graph ex_pslist_df ex_netscan_orphan_df = Inr G \<and>
     ((\<exists>colors. node_colors G = Inr colors) \<longleftrightarrow>
        (\<forall>r\<in>set ex_netscan_orphan_df. net_pid r \<noteq> 0 \<longrightarrow> net_pid r \<in> ps_pid ` set ex_pslist_df)) \<and>
     (\<forall>r\<in>set ex_netscan_orphan_df. net_pid r \<noteq> 0 \<and> net_pid r \<notin> ps_pid ` set ex_pslist_df \<longrightarrow>
        node_attrs G (Proc (net_pid r)) = Some [] \<and>
        node_colors G = Inl (KeyError ''color'') \<and>
        run no_num (Table ex_pslist) (Table ex_netscan_orphan) True = Traceback (KeyError ''color''))" ..
  from * [THEN conjunct2, THEN conjunct2, rule_format, OF r] p
  have "run no_num (Table ex_pslist) (Table ex_netscan_orphan) True = Traceback (KeyError ''color'')"
    by simp
  with r p ex_pslist_loaded ex_netscan_orphan_loaded show ?thesis
    by (intro conjI)
qed

text \<open>
  C10 says that a PID or PPID value that is missing or not numeric, coerced to 0, never
  produces a parent edge. The test of line 70 reads PPID only: a row whose PID is the text
  \<^verbatim>\<open>-\<close> and whose PPID is 4, the PID of another row, is coerced to PID 0 and gets the solid
  edge from 4 to 0.
\<close>

theorem coerced_pid_child_counterexample:
  "load_pslist no_num (Table ex_pslist_gaps) = Inr ex_pslist_gaps_df \<and>
   to_numeric no_num (Str ''-'') = None \<and>
   coerce_int no_num (Str ''-'') = Inr 0 \<and>
   load_netscan no_num (Table ex_netscan_empty) = Inr [] \<and>
   build_graph ex_pslist_gaps_df [] = Inr ex_graph_gaps \<and>
   edges ex_graph_gaps = [((Proc 4, Proc 0), [(''style'', ''solid'')])]"
proof -
  have "build_graph ex_pslist_gaps_df [] = Inr ex_graph_gaps"
    by code_simp
  moreover have "to_numeric no_num (Str ''-'') = None"
    by (simp add: to_numeric_def no_num_def)
  ultimately show ?thesis
    by (simp add: ex_pslist_gaps_loaded ex_netscan_empty_loaded coerce_int_None ex_graph_gaps_def)
qed

text \<open>
  C10, amended. A pslist row has its parent-to-child edge (PPID, PID) among the solid edges
  of the built graph exactly when its coerced PPID is nonzero and is the PID of some pslist
  row. Hence both ends of every solid edge are PIDs of pslist rows. A value that is missing
  or not numeric is coerced to 0; a row whose PPID is 0 adds no parent edge, and 0 is never
  the parent end of an edge. (A row whose PID is coerced to 0 is still the child end of its
  parent edge when its PPID qualifies.)
\<close>

theorem parent_edges:
  assumes "load_pslist num pslist_csv = Inr pslist_df"
    and "load_netscan num netscan_csv = Inr netscan_df"
  shows "\<exists>G. build_graph pslist_df netscan_df = Inr G \<and>
     (\<forall>r\<in>set pslist_df.
        (Proc (ps_ppid r), Proc (ps_pid r)) \<in> solid_edges G \<longleftrightarrow>
        ps_ppid r \<noteq> 0 \<and> ps_ppid r \<in> ps_pid ` set pslist_df) \<and>
     (\<forall>u v. (u, v) \<in> solid_edges G \<longrightarrow>
        u \<in> Proc ` ps_pid ` set pslist_df \<and> v \<in> Proc ` ps_pid ` set pslist_df) \<and>
     (\<forall>c. to_numeric num c = None \<longrightarrow> coerce_int num c = Inr 0) \<and>
     (\<forall>r\<in>set pslist_df. ps_ppid r = 0 \<longrightarrow> (Proc (ps_ppid r), Proc (ps_pid r)) \<notin> edge_set G) \<and>
     (\<forall>v. (Proc 0, v) \<notin> edge_set G)"
proof -
  from assms(2) obtain G where G: "build_graph pslist_df netscan_df = Inr G"
    and e: "edge_set G = {(Proc (ps_ppid r), Proc (ps_pid r)) | r. r \<in> set pslist_df \<and> has_parent pslist_df r}
           \<union> {(Proc (net_pid r), Ip s) | r s. r \<in> set netscan_df \<and> net_pid r \<noteq> 0 \<and> net_addr r = Str s}"
    and s: "style_inv G"
    by (rule build_graph_loaded [where ps = pslist_df]) blast
  have solid: "solid_edges G =
      {(Proc (ps_ppid r), Proc (ps_pid r)) | r. r \<in> set pslist_df \<and> has_parent pslist_df r}"
    unfolding solid_edges_style_inv [OF s] e by auto
  have 1: "\<forall>r\<in>set pslist_df.
        (Proc (ps_ppid r), Proc (ps_pid r)) \<in> solid_edges G \<longleftrightarrow>
        ps_ppid r \<noteq> 0 \<and> ps_ppid r \<in> ps_pid ` set pslist_df"
    unfolding solid by (auto simp: has_parent_def)
  have 2: "\<forall>u v. (u, v) \<in> solid_edges G \<longrightarrow>
        u \<in> Proc ` ps_pid ` set pslist_df \<and> v \<in> Proc ` ps_pid ` set pslist_df"
    unfolding solid by (auto simp: has_parent_def)
  have 3: "\<forall>c. to_numeric num c = None \<longrightarrow> coerce_int num c = Inr 0"
    by (simp add: coerce_int_None)
  have 5: "\<forall>v. (Proc 0, v) \<notin> edge_set G"
    unfolding e by (auto simp: has_parent_def)
  then have 4: "\<forall>r\<in>set pslist_df. ps_ppid r = 0 \<longrightarrow>
      (Proc (ps_ppid r), Proc (ps_pid r)) \<notin> edge_set G"
    by simp
  from G 1 2 3 4 5 show ?thesis
    by (intro exI [of _ G] conjI)
qed

theorem parent_edges_witness:
  "load_pslist no_num (Table ex_pslist_gaps) = Inr ex_pslist_gaps_df \<and>
   load_netscan no_num (Table ex_netscan) = Inr ex_netscan_df \<and>
   \<lparr>ps_pid = 0, ps_ppid = 4, ps_name = Str ''ghost.exe''\<rparr> \<in> set ex_pslist_gaps_df \<and>
   \<lparr>ps_pid = 12, ps_ppid = 0, ps_name = Str ''lost.exe''\<rparr> \<in> set ex_pslist_gaps_df \<and>
   to_numeric no_num NaN = None \<and> coerce_int no_num NaN = Inr 0 \<and>
   (\<exists>G. build_graph ex_pslist_gaps_df ex_netscan_df = Inr G \<and>
      (Proc 4, Proc 0) \<in> solid_edges G \<and> (Proc 0, Proc 12) \<notin> solid_edges G \<and>
      (Proc 0, Proc 12) \<notin> edge_set G)"
proof -
  have r: "\<lparr>ps_pid = 0, ps_ppid = 4, ps_name = Str ''ghost.exe''\<rparr> \<in> set ex_pslist_gaps_df"
    and r0: "\<lparr>ps_pid = 12, ps_ppid = 0, ps_name = Str ''lost.exe''\<rparr> \<in> set ex_pslist_gaps_df"
    by (simp_all add: ex_pslist_gaps_df_def)
  have c: "to_numeric no_num NaN = None"
    by (simp add: to_numeric_def)
  from parent_edges [OF ex_pslist_gaps_loaded ex_netscan_loaded]
  obtain G where *: "build_graph ex_pslist_gaps_df ex_netscan_df = Inr G \<and>
     (\<forall>r\<in>set ex_pslist_gaps_df.
        (Proc (ps_ppid r), Proc (ps_pid r)) \<in> solid_edges G \<longleftrightarrow>
        ps_ppid r \<noteq> 0 \<and> ps_ppid r \<in> ps_pid ` set ex_pslist_gaps_df) \<and>
     (\<forall>u v. (u, v) \<in> solid_edges G \<longrightarrow>
        u \<in> Proc ` ps_pid ` set ex_pslist_gaps_df \<and> v \<in> Proc ` ps_pid ` set ex_pslist_gaps_df) \<and>
     (\<forall>c. to_numeric no_num c = None \<longrightarrow> coerce_int no_num c = Inr 0) \<and>
     (\<forall>r\<in>set ex_pslist_gaps_df. ps_ppid r = 0 \<longrightarrow>
        (Proc (ps_ppid r), Proc (ps_pid r)) \<notin> edge_set G) \<and>
     (\<forall>v. (Proc 0, v) \<notin> edge_set G)" ..
  note G = * [THEN conjunct1]
    and a = * [THEN conjunct2, THEN conjunct1, rule_format]
    and d = * [THEN conjunct2, THEN conjunct2, THEN conjunct2, THEN conjunct1, rule_format]
    and z = * [THEN conjunct2, THEN conjunct2, THEN conjunct2, THEN conjunct2, THEN conjunct1,
               rule_format]
  have 1: "(Proc 4, Proc 0) \<in> solid_edges G"
    using a [OF r] by (simp add: ex_pslist_gaps_df_def)
  have 2: "(Proc 0, Proc 12) \<notin> solid_edges G"
    using a [OF r0] by simp
  have 3: "(Proc 0, Proc 12) \<notin> edge_set G"
    using z [OF r0] by simp
  have 4: "coerce_int no_num NaN = Inr 0"
    using d [OF c] .
  from G 1 2 3 4 r r0 c ex_pslist_gaps_loaded ex_netscan_loaded show ?thesis
    by (intro exI [of _ G] conjI)
qed

text \<open>
  C3 says that every handled failure ends in an error message and an exit. The handler of
  \<^verbatim>\<open>net.show\<close> (lines 110-114) does not: when \<^verbatim>\<open>net.show\<close> raises on the example tables,
  the run goes on, writes the HTML from \<^verbatim>\<open>net.generate_html()\<close> and ends normally.
\<close>

theorem show_fallback_counterexample:
  "run no_num (Table ex_pslist) (Table ex_netscan) False = Saved ex_graph ex_pyvis Generate_html"
  by code_simp

text \<open>
  C3, amended. A failure while loading either table is handled only by printing an error
  message and exiting with status 1: the outcome is that message and nothing else. A failure
  of \<^verbatim>\<open>net.show\<close> is handled by a fallback instead: a run that ends normally when
  \<^verbatim>\<open>net.show\<close> succeeds also ends normally, with the same graph, when \<^verbatim>\<open>net.show\<close> raises,
  the HTML then being written from \<^verbatim>\<open>net.generate_html()\<close>.
\<close>

theorem handled_failures:
  "(load_pslist num pslist_csv = Inl e \<longrightarrow>
      run num pslist_csv netscan_csv show_ok = Exit1 (handler pslist_file ''pslist.csv'' e)) \<and>
   (load_pslist num pslist_csv = Inr pslist_df \<and> load_netscan num netscan_csv = Inl e \<longrightarrow>
      run num pslist_csv netscan_csv show_ok = Exit1 (handler netscan_file ''netscan.csv'' e)) \<and>
   (run num pslist_csv netscan_csv True = Saved G net Show \<longrightarrow>
      run num pslist_csv netscan_csv False = Saved G net Generate_html)"
  by (auto simp: run_def split: sum.splits)

theorem handled_failures_witness:
  "load_pslist no_num Missing = Inl FileNotFoundError \<and>
   run no_num Missing (Table ex_netscan) True = Exit1 (NotFoundMsg ''volatility_output/pslist.csv'') \<and>
   load_pslist no_num (Table ex_pslist) = Inr ex_pslist_df \<and>
   load_netscan no_num Unparsable = Inl ParserError \<and>
   run no_num (Table ex_pslist) Unparsable True = Exit1 (LoadingMsg ''netscan.csv'' ParserError) \<and>
   run no_num (Table ex_pslist) (Table ex_netscan) True = Saved ex_graph ex_pyvis Show \<and>
   run no_num (Table ex_pslist) (Table ex_netscan) False = Saved ex_graph ex_pyvis Generate_html"
proof -
  have 1: "load_pslist no_num Missing = Inl FileNotFoundError"
    by (simp add: load_pslist_def)
  have 2: "load_pslist no_num (Table ex_pslist) = Inr ex_pslist_df \<and>
           load_netscan no_num Unparsable = Inl ParserError"
    by (simp add: ex_pslist_loaded load_netscan_def)
  have 3: "run no_num (Table ex_pslist) (Table ex_netscan) True = Saved ex_graph ex_pyvis Show"
    by code_simp
  note h = handled_failures [where num = no_num and pslist_csv = Missing and e = FileNotFoundError
        and netscan_csv = "Table ex_netscan" and show_ok = True,
      THEN conjunct1, rule_format, OF 1]
    handled_failures [where num = no_num and pslist_csv = "Table ex_pslist" and show_ok = True
        and pslist_df = ex_pslist_df and netscan_csv = Unparsable and e = ParserError,
      THEN conjunct2, THEN conjunct1, rule_format, OF 2]
    handled_failures [where num = no_num and pslist_csv = "Table ex_pslist"
        and netscan_csv = "Table ex_netscan" and G = ex_graph and net = ex_pyvis,
      THEN conjunct2, THEN conjunct2, rule_format, OF 3]
  from h 1 2 3 show ?thesis
    by (simp add: handler_def pslist_file_def)
qed

text \<open>
  C5 says that loading fails only for a missing file, an unparsable file or a missing
  required column. A netscan table with all three required columns and no \<^verbatim>\<open>Proto\<close>
  column also ends the run with an error message and status 1: the filter of line 50 reads
  \<^verbatim>\<open>Proto\<close>, and the \<^verbatim>\<open>KeyError\<close> is caught by the \<^verbatim>\<open>except Exception\<close> handler.
\<close>

theorem netscan_without_proto_counterexample:
  "set required_netscan_cols \<subseteq> set (columns ex_netscan_no_proto) \<and>
   load_netscan no_num (Table ex_netscan_no_proto) = Inl (KeyError ''Proto'') \<and>
   run no_num (Table ex_pslist) (Table ex_netscan_no_proto) True =
     Exit1 (LoadingMsg ''netscan.csv'' (KeyError ''Proto''))"
proof -
  have "set required_netscan_cols \<subseteq> set (columns ex_netscan_no_proto)"
    by (simp add: required_netscan_cols_def ex_netscan_no_proto_def)
  moreover have "run no_num (Table ex_pslist) (Table ex_netscan_no_proto) True =
     Exit1 (LoadingMsg ''netscan.csv'' (KeyError ''Proto''))"
    by (simp add: run_def ex_pslist_loaded ex_netscan_no_proto_fails handler_def)
  ultimately show ?thesis
    using ex_netscan_no_proto_fails by simp
qed

text \<open>
  C5, amended. Loading pslist fails exactly when the file is missing, cannot be read or
  parsed, lacks one of \<^verbatim>\<open>PID\<close>, \<^verbatim>\<open>PPID\<close>, \<^verbatim>\<open>ImageFileName\<close>, or holds an infinite number
  in \<^verbatim>\<open>PID\<close> or \<^verbatim>\<open>PPID\<close> (on which \<^verbatim>\<open>astype(int)\<close> raises). Loading netscan fails
  exactly when the file is missing, cannot be read or parsed, lacks one of \<^verbatim>\<open>PID\<close>,
  \<^verbatim>\<open>ForeignAddr\<close>, \<^verbatim>\<open>ForeignPort\<close>, holds an infinite number in \<^verbatim>\<open>PID\<close> or \<^verbatim>\<open>ForeignPort\<close>,
  lacks the \<^verbatim>\<open>Proto\<close> column, or has a \<^verbatim>\<open>ForeignAddr\<close> column on which the \<^verbatim>\<open>.str\<close>
  accessor raises. The run prints an error and exits with status 1 exactly when one of the
  two loads fails. When both loads succeed, both tables have their required columns, and
  netscan has \<^verbatim>\<open>Proto\<close>.
\<close>

theorem load_failures:
  "((\<exists>e. load_pslist num pslist_csv = Inl e) \<longleftrightarrow>
      (pslist_csv = Missing \<or> pslist_csv = Unparsable \<or>
       (\<exists>f. pslist_csv = Table f \<and>
          (\<not> set required_pslist_cols \<subseteq> set (columns f) \<or>
           infinite_in num f ''PID'' \<or> infinite_in num f ''PPID'')))) \<and>
   ((\<exists>e. load_netscan num netscan_csv = Inl e) \<longleftrightarrow>
      (netscan_csv = Missing \<or> netscan_csv = Unparsable \<or>
       (\<exists>f. netscan_csv = Table f \<and>
          (\<not> set required_netscan_cols \<subseteq> set (columns f) \<or>
           infinite_in num f ''PID'' \<or> infinite_in num f ''ForeignPort'' \<or>
           ''Proto'' \<notin> set (columns f) \<or>
           \<not> str_accessor_ok (map (\<lambda>r. r ''ForeignAddr'') (rows f)))))) \<and>
   ((\<exists>m. run num pslist_csv netscan_csv show_ok = Exit1 m) \<longleftrightarrow>
      (\<exists>e. load_pslist num pslist_csv = Inl e) \<or> (\<exists>e. load_netscan num netscan_csv = Inl e)) \<and>
   (\<forall>pslist_df netscan_df.
      load_pslist num pslist_csv = Inr pslist_df \<and> load_netscan num netscan_csv = Inr netscan_df \<longrightarrow>
      (\<exists>f g. pslist_csv = Table f \<and> netscan_csv = Table g \<and>
         set required_pslist_cols \<subseteq> set (columns f) \<and>
         set required_netscan_cols \<subseteq> set (columns g) \<and> ''Proto'' \<in> set (columns g)))"
proof (intro conjI allI impI)
  show "(\<exists>e. load_pslist num pslist_csv = Inl e) \<longleftrightarrow>
      (pslist_csv = Missing \<or> pslist_csv = Unparsable \<or>
       (\<exists>f. pslist_csv = Table f \<and>
          (\<not> set required_pslist_cols \<subseteq> set (columns f) \<or>
           infinite_in num f ''PID'' \<or> infinite_in num f ''PPID'')))"
    by (rule load_pslist_Inl)
  show "(\<exists>e. load_netscan num netscan_csv = Inl e) \<longleftrightarrow>
      (netscan_csv = Missing \<or> netscan_csv = Unparsable \<or>
       (\<exists>f. netscan_csv = Table f \<and>
          (\<not> set required_netscan_cols \<subseteq> set (columns f) \<or>
           infinite_in num f ''PID'' \<or> infinite_in num f ''ForeignPort'' \<or>
           ''Proto'' \<notin> set (columns f) \<or>
           \<not> str_accessor_ok (map (\<lambda>r. r ''ForeignAddr'') (rows f)))))"
    by (rule load_netscan_Inl)
  show "(\<exists>m. run num pslist_csv netscan_csv show_ok = Exit1 m) \<longleftrightarrow>
      (\<exists>e. load_pslist num pslist_csv = Inl e) \<or> (\<exists>e. load_netscan num netscan_csv = Inl e)"
    by (rule run_Exit1)
next
  fix pslist_df netscan_df
  assume a: "load_pslist num pslist_csv = Inr pslist_df \<and> load_netscan num netscan_csv = Inr netscan_df"
  then obtain g where g: "netscan_csv = Table g" "netscan_loadable num g"
    by (auto simp: load_netscan_Inr)
  from a obtain f where f: "pslist_csv = Table f"
    by (cases pslist_csv) (simp_all add: load_pslist_def)
  with a have "set required_pslist_cols \<subseteq> set (columns f)"
    by (simp add: load_pslist_Table split: if_splits)
  with f g show "\<exists>f g. pslist_csv = Table f \<and> netscan_csv = Table g \<and>
         set required_pslist_cols \<subseteq> set (columns f) \<and>
         set required_netscan_cols \<subseteq> set (columns g) \<and> ''Proto'' \<in> set (columns g)"
    by (simp add: netscan_loadable_def)
qed

theorem load_failures_witness:
  "load_pslist no_num (Table ex_pslist) = Inr ex_pslist_df \<and>
   load_netscan no_num (Table ex_netscan) = Inr ex_netscan_df \<and>
   set required_pslist_cols \<subseteq> set (columns ex_pslist) \<and>
   set required_netscan_cols \<subseteq> set (columns ex_netscan) \<and> ''Proto'' \<in> set (columns ex_netscan) \<and>
   infinite_in no_num ex_pslist_inf ''PID'' \<and>
   load_pslist no_num (Table ex_pslist_inf) = Inl IntCastingNaNError \<and>
   run no_num (Table ex_pslist_inf) (Table ex_netscan) True =
     Exit1 (LoadingMsg ''pslist.csv'' IntCastingNaNError)"
proof -
  have l: "load_pslist no_num (Table ex_pslist) = Inr ex_pslist_df \<and>
           load_netscan no_num (Table ex_netscan) = Inr ex_netscan_df"
    by (simp add: ex_pslist_loaded ex_netscan_loaded)
  have i: "infinite_in no_num ex_pslist_inf ''PID''"
    by (simp add: infinite_in_def ex_pslist_inf_def mk_row_def to_numeric_def)
  have r: "run no_num (Table ex_pslist_inf) (Table ex_netscan) True =
     Exit1 (LoadingMsg ''pslist.csv'' IntCastingNaNError)"
    by (simp add: run_def ex_pslist_inf_fails handler_def)
  from load_failures [of no_num "Table ex_pslist" "Table ex_netscan" True,
      THEN conjunct2, THEN conjunct2, THEN conjunct2, rule_format, OF l]
  show ?thesis
    using l i r ex_pslist_inf_fails by simp
qed

end
